theory Spec2Isabelle
  imports Main "HOL-Library.AList" "HOL-Library.Sublist"
begin

section \<open>Configuration objects\<close>

text \<open>
  The platform of \<^verbatim>\<open>index.js\<close> reads \<^verbatim>\<open>config.accounts\<close>, a list of account
  objects. A property that may be absent from the configuration is an \<open>option\<close>:
  \<open>None\<close> is JavaScript's \<^verbatim>\<open>undefined\<close>. Numbers of the configuration are
  integers (seconds, display modes); strings are strings.
\<close>

datatype jsval = JStr string | JNum int | JBool bool | JNull

text \<open>
  An object whose keys matter in their order of insertion (the \<^verbatim>\<open>mqtt\<close> section,
  which the handler copies with a spread) is an association list.
\<close>

type_synonym jsobject = "(string \<times> jsval) list"

text \<open>One entry of \<^verbatim>\<open>ataDevices\<close>, \<^verbatim>\<open>atwDevices\<close> or \<^verbatim>\<open>ervDevices\<close>:
  \<^verbatim>\<open>device.id\<close>, \<^verbatim>\<open>device.name\<close>, \<^verbatim>\<open>device.typeString\<close>, \<^verbatim>\<open>device.displayMode\<close>.\<close>

record device =
  deviceId :: string
  deviceName :: string
  typeString :: string
  displayMode :: "int option"

record account =
  name :: "string option"
  user :: "string option"
  passwd :: "string option"
  language :: "string option"
  enableDebugMode :: bool
  refreshInterval :: "int option"
  deviceRefreshInterval :: "int option"
  ataDevices :: "device list option"
  atwDevices :: "device list option"
  ervDevices :: "device list option"
  mqtt :: "jsobject option"

text \<open>The three controller classes \<^verbatim>\<open>DeviceAta\<close>, \<^verbatim>\<open>DeviceAtw\<close>, \<^verbatim>\<open>DeviceErv\<close>.\<close>

datatype dev_type = ATA | ATW | ERV

section \<open>Collaborators\<close>

text \<open>
  \<^verbatim>\<open>melCloud.connect()\<close> resolves to a response with three fields; a device of the
  list \<^verbatim>\<open>melCloud.chackDevicesList\<close> resolves to is read through \<^verbatim>\<open>DeviceID\<close> only.
\<close>

record response =
  accountInfo :: string
  contextKey :: string
  useFahrenheit :: bool

record cloud_device =
  DeviceID :: string

type_synonym accessory = string

text \<open>
  The session object and the controllers are event emitters. What one of them emits
  while a call of the handler is pending reaches the listeners the handler registered.
\<close>

datatype emitted =
    Emit_success string
  | Emit_message string
  | Emit_debug string
  | Emit_warn string
  | Emit_error string
  | Emit_publishAccessory accessory
  | Emit_devInfo string

text \<open>
  The classes \<^verbatim>\<open>MelCloud\<close>, \<^verbatim>\<open>DeviceAta\<close>, \<^verbatim>\<open>DeviceAtw\<close>, \<^verbatim>\<open>DeviceErv\<close> and the
  constant \<^verbatim>\<open>PluginName\<close> are imported by \<^verbatim>\<open>index.js\<close> from files that are not part
  of it; \<^verbatim>\<open>JSON.stringify\<close> is the language's. They are parameters of the model. A
  call that can reject has a sum as its result, \<open>Inl\<close> the error (as the text the
  template \<^verbatim>\<open>${error}\<close> prints), and comes with the events emitted before it settled.
  The constructor of a controller either throws (\<open>Some\<close> the error) or returns; its
  listeners are registered after it, so what it emits is not heard. What a call does is
  a function of the account and the device it is made for. The constructor of the
  session object and \<^verbatim>\<open>impulseGenerator.start\<close> are taken to return, without an event.
\<close>

record env =
  PluginName :: string
  JSON_stringify :: "account \<Rightarrow> string"
  connect :: "account \<Rightarrow> emitted list \<times> (string + response)"
  chackDevicesList :: "account \<Rightarrow> string \<Rightarrow> emitted list \<times> (string + cloud_device list)"
  new_Device :: "dev_type \<Rightarrow> account \<Rightarrow> device \<Rightarrow> string option"
  start :: "dev_type \<Rightarrow> account \<Rightarrow> device \<Rightarrow> emitted list \<times> string option"

section \<open>Effects\<close>

text \<open>
  What the handler does to the world, in the order it does it: lines written through
  \<^verbatim>\<open>log\<close>, the write to the shared list \<^verbatim>\<open>accountsName\<close>, and the calls to the
  collaborators and to \<^verbatim>\<open>api.publishExternalAccessories\<close>. A call is recorded with the
  account name and those of its arguments that differ from call to call: the file
  paths, which are the storage directory and the account name, and the handles
  \<^verbatim>\<open>api\<close> and \<^verbatim>\<open>melCloud\<close> are left out.
\<close>

datatype level = Warn | Info | Error | Success

datatype event =
    Log level string
  | Push string
  | NewMelCloud "string option" "string option" "string option" bool
  | Connect string
  | ChackDevicesList string string
  | ImpulseStart string "(string \<times> int) list"
  | NewDevice dev_type string device response int
  | Start dev_type string device
  | PublishExternalAccessories string "accessory list"

section \<open>The handler of \<^verbatim>\<open>didFinishLaunching\<close>\<close>

subsection \<open>Validation and derived settings\<close>

text \<open>What a template literal prints for \<^verbatim>\<open>${x}\<close>, \<^verbatim>\<open>x\<close> a string or \<^verbatim>\<open>undefined\<close>.\<close>

definition text_of :: "string option \<Rightarrow> string" where
  "text_of v = (case v of None \<Rightarrow> ''undefined'' | Some s \<Rightarrow> s)"

text \<open>\<^verbatim>\<open>!x\<close> on a string or \<^verbatim>\<open>undefined\<close>: the empty string and \<^verbatim>\<open>undefined\<close> are falsy.\<close>

definition truthy :: "string option \<Rightarrow> bool" where
  "truthy v = (case v of None \<Rightarrow> False | Some s \<Rightarrow> s \<noteq> [])"

text \<open>\<^verbatim>\<open>${x ? 'OK' : x}\<close> in the warning of line 40.\<close>

definition ok_or :: "string option \<Rightarrow> string" where
  "ok_or v = (if truthy v then ''OK'' else text_of v)"

text \<open>\<^verbatim>\<open>!accountName || !user || !passwd || !language\<close> is the negation of:\<close>

definition mandatory :: "account \<Rightarrow> bool" where
  "mandatory a = (truthy (name a) \<and> truthy (user a) \<and> truthy (passwd a) \<and> truthy (language a))"

definition missing_warning :: "account \<Rightarrow> string" where
  "missing_warning a =
     ''Name: '' @ ok_or (name a) @ '', user: '' @ ok_or (user a) @ '', password: '' @
     ok_or (passwd a) @ '', language: '' @ ok_or (language a) @ '' in config missing.''"

text \<open>
  \<^verbatim>\<open>x * 1000 || d\<close>: an absent \<^verbatim>\<open>x\<close> gives \<^verbatim>\<open>NaN\<close>, which is falsy as \<^verbatim>\<open>0\<close> is;
  every other product is truthy and is the result. The seconds are whole numbers here,
  and the product is the exact one: that is the product of the code, which multiplies
  doubles, for every number of seconds of magnitude up to \<open>2^53 / 1000\<close>. Fractions of
  a second and larger magnitudes are outside the model.
\<close>

definition times1000_or :: "int option \<Rightarrow> int \<Rightarrow> int" where
  "times1000_or x d = (case x of None \<Rightarrow> d | Some n \<Rightarrow> if n * 1000 = 0 then d else n * 1000)"

text \<open>The constants \<^verbatim>\<open>refreshInterval\<close> and \<^verbatim>\<open>deviceRefreshInterval\<close> of lines 72 and 73
  (milliseconds; the fields of the same names hold seconds).\<close>

definition refreshInterval_ms :: "account \<Rightarrow> int" where
  "refreshInterval_ms a = times1000_or (refreshInterval a) 120000"

definition deviceRefreshInterval_ms :: "account \<Rightarrow> int" where
  "deviceRefreshInterval_ms a = times1000_or (deviceRefreshInterval a) 5000"

subsection \<open>Debug output\<close>

text \<open>
  \<^verbatim>\<open>{...account, passwd: 'removed', mqtt: {...account.mqtt, passwd: 'removed'}}\<close>.
  A key written after a spread keeps the position the spread gave it, or is appended:
  that is \<open>AList.update\<close>. Spreading \<^verbatim>\<open>undefined\<close> adds nothing. The account itself is
  a record, so the order of its own keys is not part of the model; \<^verbatim>\<open>JSON.stringify\<close>
  is a function of the record.
\<close>

definition spread :: "jsobject option \<Rightarrow> jsobject" where
  "spread v = (case v of None \<Rightarrow> [] | Some kvs \<Rightarrow> kvs)"

definition debugData :: "account \<Rightarrow> account" where
  "debugData a =
     a\<lparr>passwd := Some ''removed'',
       mqtt := Some (AList.update ''passwd'' (JStr ''removed'') (spread (mqtt a)))\<rparr>"

text \<open>Lines 53 and 64: both lines are written only in debug mode.\<close>

definition debug_log :: "env \<Rightarrow> string \<Rightarrow> account \<Rightarrow> event list" where
  "debug_log e accountName a =
     (if enableDebugMode a
      then [Log Info (''Account: '' @ accountName @ '', did finish launching.''),
            Log Info (''Account: '' @ accountName @ '', Config: '' @ JSON_stringify e (debugData a))]
      else [])"

subsection \<open>Listeners\<close>

text \<open>Lines 78 to 92: the listeners on the session object. An event without a
  listener is dropped.\<close>

fun melCloud_on :: "string \<Rightarrow> emitted \<Rightarrow> event list" where
  "melCloud_on accountName (Emit_success m) = [Log Success (''Account '' @ accountName @ '', '' @ m)]"
| "melCloud_on accountName (Emit_message m) = [Log Info (''Account '' @ accountName @ '', '' @ m)]"
| "melCloud_on accountName (Emit_debug d) = [Log Info (''Account '' @ accountName @ '', debug: '' @ d)]"
| "melCloud_on accountName (Emit_warn w) = [Log Warn (''Account '' @ accountName @ '', '' @ w)]"
| "melCloud_on accountName (Emit_error x) = [Log Error (''Account '' @ accountName @ '', '' @ x @ ''.'')]"
| "melCloud_on accountName _ = []"

text \<open>Lines 121 to 144 (and the same listeners at 166 and 211): the listeners on a
  controller.\<close>

fun device_on :: "env \<Rightarrow> string \<Rightarrow> device \<Rightarrow> emitted \<Rightarrow> event list" where
  "device_on e accountName d (Emit_publishAccessory acc) =
     [PublishExternalAccessories (PluginName e) [acc],
      Log Success (accountName @ '', '' @ typeString d @ '' '' @ deviceName d @
                   '', published as external accessory.'')]"
| "device_on e accountName d (Emit_devInfo i) = [Log Info i]"
| "device_on e accountName d (Emit_success m) = [Log Success (typeString d @ '', '' @ deviceName d @ '', '' @ m)]"
| "device_on e accountName d (Emit_message m) = [Log Info (typeString d @ '', '' @ deviceName d @ '', '' @ m)]"
| "device_on e accountName d (Emit_debug m) = [Log Info (typeString d @ '', '' @ deviceName d @ '', debug: '' @ m)]"
| "device_on e accountName d (Emit_warn w) = [Log Warn (typeString d @ '', '' @ deviceName d @ '', '' @ w)]"
| "device_on e accountName d (Emit_error x) = [Log Error (typeString d @ '', '' @ deviceName d @ '', '' @ x)]"

subsection \<open>Dispatch of one device type\<close>

text \<open>\<^verbatim>\<open>devices.some(dev => dev.DeviceID === deviceId)\<close>.\<close>

definition deviceExistInMelCloud :: "cloud_device list \<Rightarrow> device \<Rightarrow> bool" where
  "deviceExistInMelCloud devices d = (\<exists>dev \<in> set devices. DeviceID dev = deviceId d)"

text \<open>\<^verbatim>\<open>device.displayMode > 0 ?? false\<close>: the comparison binds tighter than \<^verbatim>\<open>??\<close> and is
  never nullish, so this is the comparison; \<^verbatim>\<open>undefined > 0\<close> is false.\<close>

definition displayMode_on :: "device \<Rightarrow> bool" where
  "displayMode_on d = (case displayMode d of None \<Rightarrow> False | Some m \<Rightarrow> m > 0)"

text \<open>
  The body of \<^verbatim>\<open>for (const device of account.ataDevices)\<close>, over the rest of the
  list. The result is the effects and, when the constructor or \<^verbatim>\<open>start()\<close> threw, the
  error that left the loop.
\<close>

fun device_loop ::
  "env \<Rightarrow> dev_type \<Rightarrow> string \<Rightarrow> account \<Rightarrow> response \<Rightarrow> cloud_device list \<Rightarrow> device list
   \<Rightarrow> event list \<times> string option" where
  "device_loop e ty accountName a r devices [] = ([], None)"
| "device_loop e ty accountName a r devices (d # rest) =
     (if \<not> deviceExistInMelCloud devices d \<or> \<not> displayMode_on d
      then device_loop e ty accountName a r devices rest
      else (case new_Device e ty a d of
              Some err \<Rightarrow> ([NewDevice ty accountName d r (deviceRefreshInterval_ms a)], Some err)
            | None \<Rightarrow>
               (case start e ty a d of
                  (em, Some err) \<Rightarrow>
                    (NewDevice ty accountName d r (deviceRefreshInterval_ms a) #
                     Start ty accountName d # concat (map (device_on e accountName d) em), Some err)
                | (em, None) \<Rightarrow>
                    (case device_loop e ty accountName a r devices rest of
                       (evs, res) \<Rightarrow>
                         (NewDevice ty accountName d r (deviceRefreshInterval_ms a) #
                          Start ty accountName d # concat (map (device_on e accountName d) em) @ evs,
                          res)))))"

definition type_label :: "dev_type \<Rightarrow> string" where
  "type_label ty = (case ty of ATA \<Rightarrow> ''ATA'' | ATW \<Rightarrow> ''ATW'' | ERV \<Rightarrow> ''ERV'')"

text \<open>The property of the account that holds the devices of a type.\<close>

definition type_property :: "dev_type \<Rightarrow> string" where
  "type_property ty =
     (case ty of ATA \<Rightarrow> ''ataDevices'' | ATW \<Rightarrow> ''atwDevices'' | ERV \<Rightarrow> ''ervDevices'')"

definition type_devices :: "dev_type \<Rightarrow> account \<Rightarrow> device list option" where
  "type_devices ty a = (case ty of ATA \<Rightarrow> ataDevices a | ATW \<Rightarrow> atwDevices a | ERV \<Rightarrow> ervDevices a)"

definition launching_error :: "string \<Rightarrow> dev_type \<Rightarrow> string \<Rightarrow> event" where
  "launching_error accountName ty err =
     Log Error (''Account: '' @ accountName @ '', '' @ type_label ty @ '' did finish launching error: '' @ err)"

text \<open>
  \<^verbatim>\<open>try { for (...) {...} } catch (error) { log.error(...) }\<close> for one type. Iterating
  an absent list throws a \<^verbatim>\<open>TypeError\<close>, which the same \<^verbatim>\<open>catch\<close> reports; its text is
  the one Node gives it, \<^verbatim>\<open>TypeError: account.ataDevices is not iterable\<close> for the first
  type.
\<close>

definition not_iterable :: "dev_type \<Rightarrow> string" where
  "not_iterable ty = ''TypeError: account.'' @ type_property ty @ '' is not iterable''"


definition dispatch ::
  "env \<Rightarrow> dev_type \<Rightarrow> string \<Rightarrow> account \<Rightarrow> response \<Rightarrow> cloud_device list \<Rightarrow> event list" where
  "dispatch e ty accountName a r devices =
     (case type_devices ty a of
        None \<Rightarrow> [launching_error accountName ty (not_iterable ty)]
      | Some ds \<Rightarrow>
         (case device_loop e ty accountName a r devices ds of
            (evs, None) \<Rightarrow> evs
          | (evs, Some err) \<Rightarrow> evs @ [launching_error accountName ty err]))"

subsection \<open>One account\<close>

text \<open>Lines 75 to 243: the outer \<^verbatim>\<open>try\<close> of an account that passed validation.\<close>

definition account_error :: "string \<Rightarrow> string \<Rightarrow> event" where
  "account_error accountName err =
     Log Error (''Account: '' @ accountName @ '', did finish launching error: '' @ err)"

definition startup :: "env \<Rightarrow> string \<Rightarrow> account \<Rightarrow> event list" where
  "startup e accountName a =
     NewMelCloud (user a) (passwd a) (language a) (enableDebugMode a) #
     Connect accountName #
     (case connect e a of
        (em, Inl err) \<Rightarrow> concat (map (melCloud_on accountName) em) @ [account_error accountName err]
      | (em, Inr r) \<Rightarrow>
          concat (map (melCloud_on accountName) em) @
          ChackDevicesList accountName (contextKey r) #
          (case chackDevicesList e a (contextKey r) of
             (em', Inl err) \<Rightarrow> concat (map (melCloud_on accountName) em') @ [account_error accountName err]
           | (em', Inr devices) \<Rightarrow>
               concat (map (melCloud_on accountName) em') @
               ImpulseStart accountName [(''checkDevicesList'', refreshInterval_ms a)] #
               dispatch e ATA accountName a r devices @
               dispatch e ATW accountName a r devices @
               dispatch e ERV accountName a r devices))"

text \<open>
  The body of \<^verbatim>\<open>for (const account of config.accounts)\<close>, lines 33 to 243. A
  \<^verbatim>\<open>return\<close> leaves the handler, and with it the loop; the end of the body goes on to
  the next account. The second component is \<^verbatim>\<open>accountsName\<close> after the body. Past
  the check of line 39 the name is a string, so \<open>text_of\<close> of it is the name itself.
\<close>

datatype completion = Return | Next

definition account_body :: "env \<Rightarrow> string list \<Rightarrow> account \<Rightarrow> completion \<times> string list \<times> event list" where
  "account_body e accountsName a =
     (if \<not> mandatory a then (Return, accountsName, [Log Warn (missing_warning a)])
      else if text_of (name a) \<in> set accountsName
      then (Return, accountsName, [Log Warn (''Account name: '' @ text_of (name a) @ '', must be unique.'')])
      else (Next, accountsName @ [text_of (name a)],
            Push (text_of (name a)) # debug_log e (text_of (name a)) a @ startup e (text_of (name a)) a))"

text \<open>The loop over the accounts: the effects of each iteration that ran, in order.\<close>

fun account_loop :: "env \<Rightarrow> string list \<Rightarrow> account list \<Rightarrow> event list list" where
  "account_loop e accountsName [] = []"
| "account_loop e accountsName (a # rest) =
     (case account_body e accountsName a of
        (Return, _, evs) \<Rightarrow> [evs]
      | (Next, accountsName', evs) \<Rightarrow> evs # account_loop e accountsName' rest)"

text \<open>The handler: \<^verbatim>\<open>accountsName\<close> starts empty (line 18).\<close>

definition didFinishLaunching :: "env \<Rightarrow> account list \<Rightarrow> event list" where
  "didFinishLaunching e accounts = concat (account_loop e [] accounts)"

subsection \<open>What the loop over a device list amounts to\<close>

text \<open>The guard of lines 114, 159 and 204, negated: the device is not skipped.\<close>

definition eligible :: "cloud_device list \<Rightarrow> device \<Rightarrow> bool" where
  "eligible devices d = (deviceExistInMelCloud devices d \<and> displayMode_on d)"

text \<open>The error, if any, that constructing and starting the controller of a device
  raises.\<close>

definition thrown :: "env \<Rightarrow> dev_type \<Rightarrow> account \<Rightarrow> device \<Rightarrow> string option" where
  "thrown e ty a d = (case new_Device e ty a d of Some err \<Rightarrow> Some err | None \<Rightarrow> snd (start e ty a d))"

text \<open>The effects of one iteration that is not skipped: the constructor call and, when
  it returned, the call of \<^verbatim>\<open>start()\<close> with what the listeners did meanwhile.\<close>

definition device_effects ::
  "env \<Rightarrow> dev_type \<Rightarrow> string \<Rightarrow> account \<Rightarrow> response \<Rightarrow> device \<Rightarrow> event list" where
  "device_effects e ty accountName a r d =
     NewDevice ty accountName d r (deviceRefreshInterval_ms a) #
     (case new_Device e ty a d of
        Some err \<Rightarrow> []
      | None \<Rightarrow> Start ty accountName d # concat (map (device_on e accountName d) (fst (start e ty a d))))"

text \<open>
  The devices of a configured list that the loop gets to, in the order of the
  configuration: the devices that are not skipped, up to and including the first whose
  controller throws.
\<close>

fun reached :: "env \<Rightarrow> dev_type \<Rightarrow> account \<Rightarrow> cloud_device list \<Rightarrow> device list \<Rightarrow> device list" where
  "reached e ty a devices [] = []"
| "reached e ty a devices (d # rest) =
     (if eligible devices d
      then (if thrown e ty a d = None then d # reached e ty a devices rest else [d])
      else reached e ty a devices rest)"

text \<open>The error that ends the loop over a configured list, if one does: that of the
  first device, among those not skipped, whose controller throws.\<close>

fun failure :: "env \<Rightarrow> dev_type \<Rightarrow> account \<Rightarrow> cloud_device list \<Rightarrow> device list \<Rightarrow> string option" where
  "failure e ty a devices [] = None"
| "failure e ty a devices (d # rest) =
     (if eligible devices d
      then (if thrown e ty a d = None then failure e ty a devices rest else thrown e ty a d)
      else failure e ty a devices rest)"

text \<open>
  The effects of the dispatch of one type, said by device: for each device the loop
  gets to, in the order of the configuration, its constructor call, its
  \<^verbatim>\<open>start()\<close> and what the listeners did meanwhile (a publication among them); then
  the one line of the \<^verbatim>\<open>catch\<close> when the loop was left by an error.
\<close>

definition type_effects ::
  "env \<Rightarrow> dev_type \<Rightarrow> string \<Rightarrow> account \<Rightarrow> response \<Rightarrow> cloud_device list \<Rightarrow> event list" where
  "type_effects e ty accountName a r devices =
     (case type_devices ty a of
        None \<Rightarrow> [launching_error accountName ty (not_iterable ty)]
      | Some ds \<Rightarrow>
          concat (map (device_effects e ty accountName a r) (reached e ty a devices ds)) @
          (case failure e ty a devices ds of
             None \<Rightarrow> []
           | Some err \<Rightarrow> [launching_error accountName ty err]))"

subsection \<open>Views of a trace\<close>

text \<open>The controllers a trace constructs, by type and configured device.\<close>

fun new_device_of :: "event \<Rightarrow> (dev_type \<times> device) option" where
  "new_device_of (NewDevice ty accountName d r i) = Some (ty, d)"
| "new_device_of _ = None"

definition constructed :: "event list \<Rightarrow> (dev_type \<times> device) list" where
  "constructed evs = List.map_filter new_device_of evs"

text \<open>The controllers a trace starts.\<close>

fun start_of :: "event \<Rightarrow> (dev_type \<times> device) option" where
  "start_of (Start ty accountName d) = Some (ty, d)"
| "start_of _ = None"

definition started :: "event list \<Rightarrow> (dev_type \<times> device) list" where
  "started evs = List.map_filter start_of evs"

text \<open>The calls on controllers: construction and \<^verbatim>\<open>start()\<close>.\<close>

fun controller_call :: "event \<Rightarrow> bool" where
  "controller_call (NewDevice ty accountName d r i) = True"
| "controller_call (Start ty accountName d) = True"
| "controller_call _ = False"

text \<open>The configured devices of an account in the order type, then configuration; an
  absent list has no devices.\<close>

definition configured :: "account \<Rightarrow> (dev_type \<times> device) list" where
  "configured a =
     map (Pair ATA) (case ataDevices a of None \<Rightarrow> [] | Some ds \<Rightarrow> ds) @
     map (Pair ATW) (case atwDevices a of None \<Rightarrow> [] | Some ds \<Rightarrow> ds) @
     map (Pair ERV) (case ervDevices a of None \<Rightarrow> [] | Some ds \<Rightarrow> ds)"

text \<open>
  The stage of the startup sequence a call belongs to: connect, device-list discovery,
  scheduler start, then the dispatch of each type. Log lines, the write to
  \<^verbatim>\<open>accountsName\<close>, the construction of the session object and the publication of an
  accessory (which carries no type) have none.
\<close>

definition type_stage :: "dev_type \<Rightarrow> nat" where
  "type_stage ty = (case ty of ATA \<Rightarrow> 3 | ATW \<Rightarrow> 4 | ERV \<Rightarrow> 5)"

fun stage :: "event \<Rightarrow> nat option" where
  "stage (Connect accountName) = Some 0"
| "stage (ChackDevicesList accountName key) = Some 1"
| "stage (ImpulseStart accountName timers) = Some 2"
| "stage (NewDevice ty accountName d r i) = Some (type_stage ty)"
| "stage (Start ty accountName d) = Some (type_stage ty)"
| "stage _ = None"

definition stages :: "event list \<Rightarrow> nat list" where
  "stages evs = List.map_filter stage evs"

section \<open>Refresh ticks\<close>

text \<open>
  The timer \<^verbatim>\<open>checkDevicesList\<close> that line 105 starts fires inside the session object,
  whose file is not part of \<^verbatim>\<open>index.js\<close>. What \<^verbatim>\<open>index.js\<close> contributes to a tick
  are its listeners \<open>melCloud_on\<close>. An account that is running has the device list the
  session object holds and the effects so far.
\<close>

record running =
  snapshot :: "cloud_device list"
  effects :: "event list"

text \<open>
  Modelled from the spec: the handler of a refresh tick, which is missing from the
  sources. ``\<^verbatim>\<open>refresh(contextKey)\<close>: calls Session.listDevices, replaces the stored
  snapshot atomically. On failure, the previous snapshot is retained and the error is
  surfaced to the caller/event stream.'' ``Each refresh tick re-runs
  DeviceRegistry.refresh; it does not re-dispatch devices.'' The argument is what the
  call of the tick emitted and returned.
\<close>

definition refresh_tick ::
  "string \<Rightarrow> emitted list \<times> (string + cloud_device list) \<Rightarrow> running \<Rightarrow> running" where
  "refresh_tick accountName res st =
     (case res of
        (em, Inr devices) \<Rightarrow>
          st\<lparr>snapshot := devices,
             effects := effects st @ concat (map (melCloud_on accountName) em)\<rparr>
      | (em, Inl err) \<Rightarrow>
          st\<lparr>effects := effects st @ concat (map (melCloud_on accountName) (em @ [Emit_error err]))\<rparr>)"

text \<open>
  Modelled from the spec: the state of an account whose startup has run, the snapshot
  being the list the initial discovery returned (empty when it was not reached).
\<close>

definition launched :: "env \<Rightarrow> string \<Rightarrow> account \<Rightarrow> running" where
  "launched e accountName a =
     \<lparr>snapshot =
        (case snd (connect e a) of
           Inl err \<Rightarrow> []
         | Inr r \<Rightarrow> (case snd (chackDevicesList e a (contextKey r)) of Inl err \<Rightarrow> [] | Inr devices \<Rightarrow> devices)),
      effects = startup e accountName a\<rparr>"

section \<open>Example configurations\<close>

definition living_room :: device where
  "living_room = \<lparr>deviceId = ''D1'', deviceName = ''Living room'', typeString = ''Air Conditioner'',
     displayMode = Some 1\<rparr>"

definition bedroom :: device where
  "bedroom = \<lparr>deviceId = ''D2'', deviceName = ''Bedroom'', typeString = ''Air Conditioner'',
     displayMode = Some 1\<rparr>"

definition boiler :: device where
  "boiler = \<lparr>deviceId = ''D3'', deviceName = ''Boiler'', typeString = ''Heat Pump'',
     displayMode = Some 2\<rparr>"

definition home :: account where
  "home = \<lparr>name = Some ''Home'', user = Some ''anna@example.org'', passwd = Some ''secret'',
     language = Some ''0'', enableDebugMode = True, refreshInterval = None,
     deviceRefreshInterval = None, ataDevices = Some [living_room, bedroom],
     atwDevices = Some [boiler], ervDevices = Some [],
     mqtt = Some [(''host'', JStr ''broker''), (''passwd'', JStr ''mq''), (''port'', JNum 1883)]\<rparr>"

definition office :: account where
  "office = \<lparr>name = Some ''Office'', user = Some ''bob@example.org'', passwd = Some ''hunter2'',
     language = Some ''0'', enableDebugMode = False, refreshInterval = Some 60,
     deviceRefreshInterval = Some 10, ataDevices = Some [living_room],
     atwDevices = Some [], ervDevices = Some [], mqtt = None\<rparr>"

definition session :: response where
  "session = \<lparr>accountInfo = ''info'', contextKey = ''key'', useFahrenheit = False\<rparr>"

definition reported :: "cloud_device list" where
  "reported = [\<lparr>DeviceID = ''D1''\<rparr>, \<lparr>DeviceID = ''D2''\<rparr>, \<lparr>DeviceID = ''D3''\<rparr>]"

text \<open>A printer standing for \<^verbatim>\<open>JSON.stringify\<close> in the examples: the user, the password
  and the \<^verbatim>\<open>mqtt\<close> keys with the strings among their values.\<close>

fun print_val :: "jsval \<Rightarrow> string" where
  "print_val (JStr s) = s"
| "print_val _ = ''_''"

definition print_account :: "account \<Rightarrow> string" where
  "print_account a =
     ''user='' @ text_of (user a) @ '' passwd='' @ text_of (passwd a) @ '' mqtt='' @
     concat (map (\<lambda>(k, v). k @ '':'' @ print_val v @ '';'') (spread (mqtt a)))"

text \<open>A cloud where every call succeeds and every controller publishes its accessory.\<close>

definition cloud :: env where
  "cloud = \<lparr>PluginName = ''homebridge-melcloud-control'', JSON_stringify = print_account,
     connect = (\<lambda>a. ([], Inr session)),
     chackDevicesList = (\<lambda>a key. ([], Inr reported)),
     new_Device = (\<lambda>ty a d. None),
     start = (\<lambda>ty a d. ([Emit_publishAccessory (deviceName d)], None))\<rparr>"

text \<open>The same cloud, where \<^verbatim>\<open>start()\<close> of the controller of device \<^verbatim>\<open>D1\<close> rejects.\<close>

definition cloud_start_fails :: env where
  "cloud_start_fails =
     cloud\<lparr>start := (\<lambda>ty a d. if deviceId d = ''D1'' then ([], Some ''Error: timeout'')
                               else ([Emit_publishAccessory (deviceName d)], None))\<rparr>"

text \<open>The same cloud, where the constructor of the controller of device \<^verbatim>\<open>D1\<close> throws.\<close>

definition cloud_constructor_fails :: env where
  "cloud_constructor_fails =
     cloud\<lparr>new_Device := (\<lambda>ty a d. if deviceId d = ''D1'' then Some ''TypeError: bad device'' else None)\<rparr>"

text \<open>The same cloud, where \<^verbatim>\<open>connect()\<close> rejects for the account \<^verbatim>\<open>Home\<close>.\<close>

definition cloud_home_offline :: env where
  "cloud_home_offline =
     cloud\<lparr>connect := (\<lambda>a. if name a = Some ''Home'' then ([Emit_warn ''no response''], Inl ''Error: login'')
                             else ([], Inr session))\<rparr>"

section \<open>The loop over a device list\<close>

lemma device_loop_Cons_eligible:
  "eligible devices d \<Longrightarrow>
   device_loop e ty n a r devices (d # rest) =
     (case thrown e ty a d of
        Some err \<Rightarrow> (device_effects e ty n a r d, Some err)
      | None \<Rightarrow> (device_effects e ty n a r d @ fst (device_loop e ty n a r devices rest),
                 snd (device_loop e ty n a r devices rest)))"
  by (auto simp: eligible_def thrown_def device_effects_def split: option.splits prod.splits)

lemma device_loop_Cons_skip:
  "\<not> eligible devices d \<Longrightarrow>
   device_loop e ty n a r devices (d # rest) = device_loop e ty n a r devices rest"
  by (auto simp: eligible_def)

lemma device_loop_skip:
  "\<not> eligible devices d \<Longrightarrow>
   device_loop e ty n a r devices (pre @ d # post) = device_loop e ty n a r devices (pre @ post)"
  by (induction pre) (auto simp: eligible_def split: option.splits prod.splits)

lemma device_loop_no_throw:
  "(\<forall>x \<in> set ds. eligible devices x \<longrightarrow> thrown e ty a x = None) \<Longrightarrow>
   device_loop e ty n a r devices ds =
     (concat (map (device_effects e ty n a r) (filter (eligible devices) ds)), None)"
proof (induction ds)
  case Nil
  show ?case by simp
next
  case (Cons d ds)
  show ?case
  proof (cases "eligible devices d")
    case True
    with Cons show ?thesis by (simp add: device_loop_Cons_eligible del: device_loop.simps)
  next
    case False
    with Cons show ?thesis by (simp add: device_loop_Cons_skip del: device_loop.simps)
  qed
qed

lemma device_loop_throw:
  assumes "\<forall>x \<in> set pre. eligible devices x \<longrightarrow> thrown e ty a x = None"
    and "eligible devices d" and "thrown e ty a d = Some err"
  shows "device_loop e ty n a r devices (pre @ d # post) =
     (concat (map (device_effects e ty n a r) (filter (eligible devices) pre)) @
      device_effects e ty n a r d, Some err)"
  using assms
proof (induction pre)
  case Nil
  then show ?case by (simp add: device_loop_Cons_eligible del: device_loop.simps)
next
  case (Cons x pre)
  show ?case
  proof (cases "eligible devices x")
    case True
    with Cons show ?thesis by (simp add: device_loop_Cons_eligible del: device_loop.simps)
  next
    case False
    with Cons show ?thesis by (simp add: device_loop_Cons_skip del: device_loop.simps)
  qed
qed

lemma device_loop_prefix:
  "\<exists>k. fst (device_loop e ty n a r devices ds) =
        concat (map (device_effects e ty n a r) (take k (filter (eligible devices) ds)))"
proof (induction ds)
  case Nil
  show ?case by simp
next
  case (Cons d ds)
  then obtain k where k: "fst (device_loop e ty n a r devices ds) =
        concat (map (device_effects e ty n a r) (take k (filter (eligible devices) ds)))" by blast
  show ?case
  proof (cases "eligible devices d")
    case False
    with k show ?thesis by (auto simp add: device_loop_Cons_skip simp del: device_loop.simps)
  next
    case True
    show ?thesis
    proof (cases "thrown e ty a d")
      case None
      with True k have "fst (device_loop e ty n a r devices (d # ds)) =
        concat (map (device_effects e ty n a r) (take (Suc k) (filter (eligible devices) (d # ds))))"
        by (simp add: device_loop_Cons_eligible del: device_loop.simps)
      then show ?thesis by blast
    next
      case (Some err)
      with True have "fst (device_loop e ty n a r devices (d # ds)) =
        concat (map (device_effects e ty n a r) (take (Suc 0) (filter (eligible devices) (d # ds))))"
        by (simp add: device_loop_Cons_eligible del: device_loop.simps)
      then show ?thesis by blast
    qed
  qed
qed

subsection \<open>The events of each part\<close>

lemma melCloud_on_logs: "ev \<in> set (melCloud_on n x) \<Longrightarrow> \<exists>l s. ev = Log l s"
  by (cases x) auto

lemma melCloud_on_concat_logs: "ev \<in> set (concat (map (melCloud_on n) em)) \<Longrightarrow> \<exists>l s. ev = Log l s"
  by (auto dest: melCloud_on_logs)

lemma device_on_events:
  "ev \<in> set (device_on e n d x) \<Longrightarrow> (\<exists>l s. ev = Log l s) \<or> (\<exists>p accs. ev = PublishExternalAccessories p accs)"
  by (cases x) auto

lemma device_effects_events:
  assumes "ev \<in> set (device_effects e ty n a r d)"
  shows "ev = NewDevice ty n d r (deviceRefreshInterval_ms a) \<or> ev = Start ty n d \<or>
         (\<exists>l s. ev = Log l s) \<or> (\<exists>p accs. ev = PublishExternalAccessories p accs)"
  using assms by (auto simp: device_effects_def split: option.splits dest: device_on_events)

lemma device_loop_events:
  assumes "ev \<in> set (fst (device_loop e ty n a r devices ds))"
  shows "\<exists>d. d \<in> set ds \<and> eligible devices d \<and> ev \<in> set (device_effects e ty n a r d)"
proof -
  obtain k where "fst (device_loop e ty n a r devices ds) =
        concat (map (device_effects e ty n a r) (take k (filter (eligible devices) ds)))"
    using device_loop_prefix by blast
  with assms obtain d where d: "d \<in> set (take k (filter (eligible devices) ds))"
    and ev: "ev \<in> set (device_effects e ty n a r d)" by auto
  from d have "d \<in> set (filter (eligible devices) ds)" by (rule in_set_takeD)
  with ev show ?thesis by auto
qed

lemma dispatch_events:
  assumes "ev \<in> set (dispatch e ty n a r devices)"
  shows "(\<exists>l s. ev = Log l s) \<or>
         (\<exists>ds d. type_devices ty a = Some ds \<and> d \<in> set ds \<and> eligible devices d \<and>
                  ev \<in> set (device_effects e ty n a r d))"
proof (cases "type_devices ty a")
  case None
  with assms show ?thesis by (simp add: dispatch_def launching_error_def)
next
  case (Some ds)
  obtain evs res where dl: "device_loop e ty n a r devices ds = (evs, res)" by (cases "device_loop e ty n a r devices ds")
  with Some assms have "ev \<in> set evs \<or> (\<exists>l s. ev = Log l s)"
    by (auto simp: dispatch_def launching_error_def split: option.splits)
  then show ?thesis
  proof
    assume "ev \<in> set evs"
    with dl have "ev \<in> set (fst (device_loop e ty n a r devices ds))" by simp
    from device_loop_events [OF this] Some show ?thesis by blast
  qed blast
qed

lemma dispatch_NewDevice:
  assumes "NewDevice ty' m d r' i \<in> set (dispatch e ty n a r devices)"
  shows "ty' = ty \<and> m = n \<and> r' = r \<and> i = deviceRefreshInterval_ms a \<and> eligible devices d \<and>
         (\<exists>ds. type_devices ty a = Some ds \<and> d \<in> set ds)"
  using dispatch_events [OF assms] by (auto dest!: device_effects_events)

lemma dispatch_Start:
  assumes "Start ty' m d \<in> set (dispatch e ty n a r devices)"
  shows "ty' = ty \<and> m = n \<and> eligible devices d \<and> (\<exists>ds. type_devices ty a = Some ds \<and> d \<in> set ds)"
  using dispatch_events [OF assms] by (auto dest!: device_effects_events)

lemma dispatch_other:
  "Connect m \<notin> set (dispatch e ty n a r devices)"
  "ChackDevicesList m k \<notin> set (dispatch e ty n a r devices)"
  "ImpulseStart m ts \<notin> set (dispatch e ty n a r devices)"
  "Push m \<notin> set (dispatch e ty n a r devices)"
  "NewMelCloud u p l dbg \<notin> set (dispatch e ty n a r devices)"
  by (auto dest!: dispatch_events device_effects_events)

subsection \<open>The devices the loop reaches\<close>

lemma device_loop_append:
  assumes "\<forall>x \<in> set pre. eligible devices x \<longrightarrow> thrown e ty a x = None"
  shows "device_loop e ty n a r devices (pre @ rest) =
     (concat (map (device_effects e ty n a r) (filter (eligible devices) pre)) @
        fst (device_loop e ty n a r devices rest),
      snd (device_loop e ty n a r devices rest))"
  using assms
proof (induction pre)
  case Nil
  show ?case by simp
next
  case (Cons x pre)
  show ?case
  proof (cases "eligible devices x")
    case True
    with Cons show ?thesis by (simp add: device_loop_Cons_eligible del: device_loop.simps)
  next
    case False
    with Cons show ?thesis by (simp add: device_loop_Cons_skip del: device_loop.simps)
  qed
qed

lemma device_effects_NewDevice:
  "NewDevice ty n d r (deviceRefreshInterval_ms a) \<in> set (device_effects e ty n a r d)"
  by (simp add: device_effects_def)

lemma device_effects_Start:
  "Start ty n d \<in> set (device_effects e ty n a r d) \<longleftrightarrow> new_Device e ty a d = None"
  by (auto simp: device_effects_def split: option.splits dest: device_on_events)

lemma device_loop_reached:
  assumes "\<forall>x \<in> set pre. eligible devices x \<longrightarrow> thrown e ty a x = None"
    and "eligible devices d"
  shows "set (device_effects e ty n a r d) \<subseteq> set (fst (device_loop e ty n a r devices (pre @ d # post)))"
  using assms
  by (auto simp: device_loop_append device_loop_Cons_eligible simp del: device_loop.simps split: option.splits)


section \<open>The startup of one account\<close>

lemma startup_success:
  assumes "connect e a = (em, Inr r)" and "chackDevicesList e a (contextKey r) = (em', Inr devices)"
  shows "startup e n a =
     NewMelCloud (user a) (passwd a) (language a) (enableDebugMode a) #
     Connect n # concat (map (melCloud_on n) em) @
     ChackDevicesList n (contextKey r) # concat (map (melCloud_on n) em') @
     ImpulseStart n [(''checkDevicesList'', refreshInterval_ms a)] #
     dispatch e ATA n a r devices @ dispatch e ATW n a r devices @ dispatch e ERV n a r devices"
  using assms by (simp add: startup_def)

lemma startup_connect_fails:
  assumes "connect e a = (em, Inl err)"
  shows "startup e n a =
     NewMelCloud (user a) (passwd a) (language a) (enableDebugMode a) #
     Connect n # concat (map (melCloud_on n) em) @ [account_error n err]"
  using assms by (simp add: startup_def)

lemma startup_discovery_fails:
  assumes "connect e a = (em, Inr r)" and "chackDevicesList e a (contextKey r) = (em', Inl err)"
  shows "startup e n a =
     NewMelCloud (user a) (passwd a) (language a) (enableDebugMode a) #
     Connect n # concat (map (melCloud_on n) em) @
     ChackDevicesList n (contextKey r) # concat (map (melCloud_on n) em') @ [account_error n err]"
  using assms by (simp add: startup_def)

lemma startup_cases:
  obtains (connect_fails) em err where "connect e a = (em, Inl err)"
  | (discovery_fails) em r em' err where "connect e a = (em, Inr r)"
      "chackDevicesList e a (contextKey r) = (em', Inl err)"
  | (success) em r em' devices where "connect e a = (em, Inr r)"
      "chackDevicesList e a (contextKey r) = (em', Inr devices)"
proof (cases "connect e a")
  case (Pair em res)
  show ?thesis
  proof (cases res)
    case (Inl err)
    with Pair connect_fails show ?thesis by simp
  next
    case (Inr r)
    show ?thesis
    proof (cases "chackDevicesList e a (contextKey r)")
      case (Pair em' res')
      with \<open>connect e a = (em, res)\<close> Inr discovery_fails success show ?thesis
        by (cases res') auto
    qed
  qed
qed

lemma startup_NewDevice:
  assumes "NewDevice ty m d r i \<in> set (startup e n a)"
  shows "m = n \<and> i = deviceRefreshInterval_ms a \<and>
         (\<exists>em em' devices. connect e a = (em, Inr r) \<and>
            chackDevicesList e a (contextKey r) = (em', Inr devices) \<and> eligible devices d \<and>
            (\<exists>ds. type_devices ty a = Some ds \<and> d \<in> set ds))"
proof (cases rule: startup_cases [of e a])
  case (connect_fails em err)
  with assms show ?thesis
    by (auto simp: startup_connect_fails account_error_def dest: melCloud_on_logs)
next
  case (discovery_fails em r' em' err)
  with assms show ?thesis
    by (auto simp: startup_discovery_fails account_error_def dest: melCloud_on_logs)
next
  case (success em r' em' devices)
  with assms have "\<exists>ty'. NewDevice ty m d r i \<in> set (dispatch e ty' n a r' devices)"
    by (auto simp: startup_success dest: melCloud_on_logs)
  then obtain ty' where "NewDevice ty m d r i \<in> set (dispatch e ty' n a r' devices)" ..
  from dispatch_NewDevice [OF this] success show ?thesis by auto
qed

lemma startup_ImpulseStart:
  assumes "ImpulseStart m ts \<in> set (startup e n a)"
  shows "m = n \<and> ts = [(''checkDevicesList'', refreshInterval_ms a)]"
proof (cases rule: startup_cases [of e a])
  case (connect_fails em err)
  with assms show ?thesis
    by (auto simp: startup_connect_fails account_error_def dest: melCloud_on_logs)
next
  case (discovery_fails em r' em' err)
  with assms show ?thesis
    by (auto simp: startup_discovery_fails account_error_def dest: melCloud_on_logs)
next
  case (success em r' em' devices)
  with assms show ?thesis
    by (auto simp: startup_success dispatch_other dest: melCloud_on_logs)
qed

subsection \<open>The controllers of a device loop\<close>

lemma device_loop_NewDevice:
  assumes "NewDevice ty' m d r' i \<in> set (fst (device_loop e ty n a r devices ds))"
  shows "eligible devices d \<and> d \<in> set ds"
  using device_loop_events [OF assms] by (auto dest!: device_effects_events)

lemma device_loop_Start:
  assumes "Start ty' m d \<in> set (fst (device_loop e ty n a r devices ds))"
  shows "eligible devices d \<and> d \<in> set ds \<and> new_Device e ty a d = None"
proof -
  from device_loop_events [OF assms] obtain d' where d': "d' \<in> set ds" "eligible devices d'"
    "Start ty' m d \<in> set (device_effects e ty n a r d')" by blast
  from device_effects_events [OF d'(3)] have "ty' = ty \<and> m = n \<and> d' = d" by auto
  with d' show ?thesis by (simp add: device_effects_Start)
qed


section \<open>The loop over the accounts\<close>

lemma account_body_missing:
  "\<not> mandatory a \<Longrightarrow> account_body e ns a = (Return, ns, [Log Warn (missing_warning a)])"
  by (simp add: account_body_def)

lemma account_body_duplicate:
  "mandatory a \<Longrightarrow> text_of (name a) \<in> set ns \<Longrightarrow>
   account_body e ns a =
     (Return, ns, [Log Warn (''Account name: '' @ text_of (name a) @ '', must be unique.'')])"
  by (simp add: account_body_def)

lemma account_body_valid:
  "mandatory a \<Longrightarrow> text_of (name a) \<notin> set ns \<Longrightarrow>
   account_body e ns a =
     (Next, ns @ [text_of (name a)],
      Push (text_of (name a)) # debug_log e (text_of (name a)) a @ startup e (text_of (name a)) a)"
  by (simp add: account_body_def)

lemma account_body_cases:
  obtains (missing) "\<not> mandatory a"
      "account_body e ns a = (Return, ns, [Log Warn (missing_warning a)])"
  | (duplicate) "mandatory a" "text_of (name a) \<in> set ns"
      "account_body e ns a =
         (Return, ns, [Log Warn (''Account name: '' @ text_of (name a) @ '', must be unique.'')])"
  | (valid) "mandatory a" "text_of (name a) \<notin> set ns"
      "account_body e ns a =
         (Next, ns @ [text_of (name a)],
          Push (text_of (name a)) # debug_log e (text_of (name a)) a @ startup e (text_of (name a)) a)"
  using account_body_missing account_body_duplicate account_body_valid by blast

lemma startup_Connect: "Connect m \<in> set (startup e n a) \<longleftrightarrow> m = n"
  by (cases rule: startup_cases [of e a])
     (auto simp: startup_connect_fails startup_discovery_fails startup_success account_error_def
        dispatch_other dest: melCloud_on_logs)

lemma debug_log_logs: "ev \<in> set (debug_log e n a) \<Longrightarrow> \<exists>l s. ev = Log l s"
  by (auto simp: debug_log_def split: if_splits)

lemma valid_body_Connect:
  "Connect m \<in> set (Push n # debug_log e n a @ startup e n a) \<longleftrightarrow> m = n"
  by (auto simp: startup_Connect dest: debug_log_logs)

lemma length_account_loop: "length (account_loop e ns accs) \<le> length accs"
proof (induction accs arbitrary: ns)
  case Nil
  show ?case by simp
next
  case (Cons a accs)
  show ?case
    by (cases rule: account_body_cases [of a e ns]) (use Cons in simp_all)
qed

lemma account_loop_nonempty: "accs \<noteq> [] \<Longrightarrow> account_loop e ns accs \<noteq> []"
proof (cases accs)
  case Nil
  assume "accs \<noteq> []"
  with Nil show ?thesis by simp
next
  case (Cons a rest)
  show ?thesis unfolding Cons
    by (cases rule: account_body_cases [of a e ns]) simp_all
qed

lemma account_loop_reached:
  assumes "k < length (account_loop e ns accs)"
    and "Connect m \<in> set (account_loop e ns accs ! k)"
  shows "mandatory (accs ! k) \<and> m = text_of (name (accs ! k)) \<and>
         account_loop e ns accs ! k = Push m # debug_log e m (accs ! k) @ startup e m (accs ! k) \<and>
         (Suc k < length accs \<longrightarrow> Suc k < length (account_loop e ns accs))"
  using assms
proof (induction accs arbitrary: ns k)
  case Nil
  then show ?case by simp
next
  case (Cons a accs)
  show ?case
  proof (cases rule: account_body_cases [of a e ns])
    case missing
    with Cons.prems show ?thesis by simp
  next
    case duplicate
    with Cons.prems show ?thesis by simp
  next
    case valid
    show ?thesis
    proof (cases k)
      case 0
      let ?n = "text_of (name a)"
      from valid have hd: "account_loop e ns (a # accs) ! 0 =
          Push ?n # debug_log e ?n a @ startup e ?n a" by simp
      with Cons.prems 0 have "Connect m \<in> set (Push ?n # debug_log e ?n a @ startup e ?n a)"
        by simp
      then have m: "m = ?n" by (simp only: valid_body_Connect)
      have "Suc 0 < length (a # accs) \<longrightarrow> Suc 0 < length (account_loop e ns (a # accs))"
        using valid account_loop_nonempty [of accs e "ns @ [?n]"] by (cases accs) simp_all
      with hd m valid 0 show ?thesis by simp
    next
      case (Suc k')
      with valid Cons.prems
      have "k' < length (account_loop e (ns @ [text_of (name a)]) accs)"
        and "Connect m \<in> set (account_loop e (ns @ [text_of (name a)]) accs ! k')" by simp_all
      from Cons.IH [OF this] Suc valid show ?thesis by simp
    qed
  qed
qed

lemma account_loop_duplicate:
  assumes "k < length (account_loop e ns accs)" and "mandatory (accs ! k)"
    and "text_of (name (accs ! k)) \<in> set ns"
  shows "account_loop e ns accs ! k =
           [Log Warn (''Account name: '' @ text_of (name (accs ! k)) @ '', must be unique.'')]"
  using assms
proof (induction accs arbitrary: ns k)
  case Nil
  then show ?case by simp
next
  case (Cons a accs)
  show ?case
  proof (cases k)
    case 0
    with Cons.prems show ?thesis by (simp add: account_body_duplicate)
  next
    case (Suc k')
    show ?thesis
    proof (cases rule: account_body_cases [of a e ns])
      case missing
      with Cons.prems Suc show ?thesis by simp
    next
      case duplicate
      with Cons.prems Suc show ?thesis by simp
    next
      case valid
      with Cons.prems Suc
      have "k' < length (account_loop e (ns @ [text_of (name a)]) accs)" "mandatory (accs ! k')"
        "text_of (name (accs ! k')) \<in> set (ns @ [text_of (name a)])" by simp_all
      from Cons.IH [OF this] Suc valid show ?thesis by simp
    qed
  qed
qed

text \<open>An account that is rejected is the last one the loop looks at.\<close>

lemma missing_field_ends_handler:
  "\<not> mandatory a \<Longrightarrow> account_loop e ns (a # rest) = [[Log Warn (missing_warning a)]]"
  by (simp add: account_body_missing)

lemma duplicate_name_ends_handler:
  "mandatory a \<Longrightarrow> text_of (name a) \<in> set ns \<Longrightarrow>
   account_loop e ns (a # rest) =
     [[Log Warn (''Account name: '' @ text_of (name a) @ '', must be unique.'')]]"
  by (simp add: account_body_duplicate)

lemma didFinishLaunching_single:
  "mandatory a \<Longrightarrow>
   didFinishLaunching e [a] =
     Push (text_of (name a)) # debug_log e (text_of (name a)) a @ startup e (text_of (name a)) a"
  by (simp add: didFinishLaunching_def account_body_valid)

lemma no_controller_without_discovery:
  assumes "(\<exists>err. snd (connect e a) = Inl err) \<or>
     (\<exists>r err. snd (connect e a) = Inr r \<and> snd (chackDevicesList e a (contextKey r)) = Inl err)"
  shows "filter controller_call (startup e n a) = [] \<and>
         (\<exists>front err. startup e n a = front @ [account_error n err])"
proof (cases rule: startup_cases [of e a])
  case (connect_fails em err)
  have logs: "filter controller_call (concat (map (melCloud_on n) em)) = []"
    by (auto simp: filter_empty_conv dest!: melCloud_on_logs)
  have "startup e n a =
     (NewMelCloud (user a) (passwd a) (language a) (enableDebugMode a) #
      Connect n # concat (map (melCloud_on n) em)) @ [account_error n err]"
    using connect_fails by (simp add: startup_connect_fails)
  then have ends: "\<exists>front err. startup e n a = front @ [account_error n err]" by blast
  have "filter controller_call (startup e n a) = []"
    using connect_fails logs by (simp add: startup_connect_fails account_error_def)
  with ends show ?thesis by blast
next
  case (discovery_fails em r em' err)
  have logs: "filter controller_call (concat (map (melCloud_on n) em)) = []"
    "filter controller_call (concat (map (melCloud_on n) em')) = []"
    by (auto simp: filter_empty_conv dest!: melCloud_on_logs)
  have "startup e n a =
     (NewMelCloud (user a) (passwd a) (language a) (enableDebugMode a) #
      Connect n # concat (map (melCloud_on n) em) @
      ChackDevicesList n (contextKey r) # concat (map (melCloud_on n) em')) @ [account_error n err]"
    using discovery_fails by (simp add: startup_discovery_fails)
  then have ends: "\<exists>front err. startup e n a = front @ [account_error n err]" by blast
  have "filter controller_call (startup e n a) = []"
    using discovery_fails logs by (simp add: startup_discovery_fails account_error_def)
  with ends show ?thesis by blast
next
  case (success em r em' devices)
  with assms show ?thesis by auto
qed

lemma debug_log_no_controller: "filter controller_call (debug_log e n a) = []"
  by (auto simp: filter_empty_conv dest!: debug_log_logs)


section \<open>Views of the startup\<close>

subsection \<open>Views of the parts\<close>

lemma map_filter_append: "List.map_filter f (xs @ ys) = List.map_filter f xs @ List.map_filter f ys"
  by (simp add: List.map_filter_def)

lemma map_filter_none: "(\<forall>x \<in> set xs. f x = None) \<Longrightarrow> List.map_filter f xs = []"
  by (induction xs) (simp_all add: List.map_filter_simps)

lemma set_map_filter: "set (List.map_filter f xs) = {y. \<exists>x \<in> set xs. f x = Some y}"
  by (induction xs) (auto simp: List.map_filter_simps split: option.splits)

lemma map_filter_melCloud_on:
  assumes "\<And>l s. f (Log l s) = None"
  shows "List.map_filter f (concat (map (melCloud_on n) em)) = []"
proof (rule map_filter_none, rule ballI)
  fix ev assume "ev \<in> set (concat (map (melCloud_on n) em))"
  then obtain l s where "ev = Log l s" using melCloud_on_concat_logs by blast
  with assms show "f ev = None" by simp
qed

lemma map_filter_device_on:
  assumes "\<And>l s. f (Log l s) = None" and "\<And>p accs. f (PublishExternalAccessories p accs) = None"
  shows "List.map_filter f (concat (map (device_on e n d) em)) = []"
proof (rule map_filter_none, rule ballI)
  fix ev assume "ev \<in> set (concat (map (device_on e n d) em))"
  then have "(\<exists>l s. ev = Log l s) \<or> (\<exists>p accs. ev = PublishExternalAccessories p accs)"
    by (auto dest: device_on_events)
  with assms show "f ev = None" by auto
qed

lemma constructed_device_effects: "constructed (device_effects e ty n a r d) = [(ty, d)]"
  by (simp add: constructed_def device_effects_def List.map_filter_simps map_filter_append
      map_filter_device_on split: option.splits)

lemma started_device_effects:
  "started (device_effects e ty n a r d) = (if new_Device e ty a d = None then [(ty, d)] else [])"
  by (simp add: started_def device_effects_def List.map_filter_simps map_filter_append
      map_filter_device_on split: option.splits)

lemma subseq_concat_map:
  assumes "\<And>x. subseq (g x) [h x]"
  shows "subseq (concat (map g xs)) (map h xs)"
proof (induction xs)
  case Nil
  show ?case by simp
next
  case (Cons x xs)
  from list_emb_append_mono [OF assms [of x] Cons] show ?case by simp
qed

lemma subseq_take: "subseq (take k xs) xs"
  by (rule prefix_imp_subseq) (rule take_is_prefix)

lemma view_device_loop:
  assumes "\<And>d. subseq (List.map_filter f (device_effects e ty n a r d)) [(ty, d)]"
  shows "subseq (List.map_filter f (fst (device_loop e ty n a r devices ds))) (map (Pair ty) ds)"
proof -
  obtain k where k: "fst (device_loop e ty n a r devices ds) =
        concat (map (device_effects e ty n a r) (take k (filter (eligible devices) ds)))"
    using device_loop_prefix by blast
  have cm: "\<And>xs. List.map_filter f (concat (map (device_effects e ty n a r) xs)) =
       concat (map (\<lambda>d. List.map_filter f (device_effects e ty n a r d)) xs)"
  proof -
    fix xs show "List.map_filter f (concat (map (device_effects e ty n a r) xs)) =
       concat (map (\<lambda>d. List.map_filter f (device_effects e ty n a r d)) xs)"
      by (induction xs) (simp_all add: List.map_filter_simps map_filter_append)
  qed
  have "subseq (List.map_filter f (fst (device_loop e ty n a r devices ds)))
          (map (Pair ty) (take k (filter (eligible devices) ds)))"
    unfolding k cm by (rule subseq_concat_map) (rule assms)
  moreover have "subseq (map (Pair ty) (take k (filter (eligible devices) ds))) (map (Pair ty) ds)"
    by (rule subseq_map) (rule subseq_order.trans [OF subseq_take subseq_filter_left])
  ultimately show ?thesis by (rule subseq_order.trans)
qed

lemma view_dispatch:
  assumes "\<And>d. subseq (List.map_filter f (device_effects e ty n a r d)) [(ty, d)]"
    and "\<And>l s. f (Log l s) = None"
  shows "subseq (List.map_filter f (dispatch e ty n a r devices))
           (map (Pair ty) (case type_devices ty a of None \<Rightarrow> [] | Some ds \<Rightarrow> ds))"
proof (cases "type_devices ty a")
  case None
  with assms(2) show ?thesis
    by (simp add: dispatch_def launching_error_def List.map_filter_simps)
next
  case (Some ds)
  obtain evs res where dl: "device_loop e ty n a r devices ds = (evs, res)"
    by (cases "device_loop e ty n a r devices ds")
  from view_device_loop [of f e ty n a r devices ds, OF assms(1)] dl
  have "subseq (List.map_filter f evs) (map (Pair ty) ds)" by simp
  with Some dl assms(2) show ?thesis
    by (cases res) (simp_all add: dispatch_def launching_error_def List.map_filter_simps map_filter_append)
qed

lemma view_startup:
  assumes "\<And>ty r d. subseq (List.map_filter f (device_effects e ty n a r d)) [(ty, d)]"
    and "\<And>l s. f (Log l s) = None"
    and "\<And>u p l dbg. f (NewMelCloud u p l dbg) = None" and "\<And>m. f (Connect m) = None"
    and "\<And>m k. f (ChackDevicesList m k) = None" and "\<And>m ts. f (ImpulseStart m ts) = None"
  shows "subseq (List.map_filter f (startup e n a)) (configured a)"
proof (cases rule: startup_cases [of e a])
  case (connect_fails em err)
  with assms show ?thesis
    by (simp add: startup_connect_fails account_error_def List.map_filter_simps map_filter_append
        map_filter_melCloud_on)
next
  case (discovery_fails em r em' err)
  with assms show ?thesis
    by (simp add: startup_discovery_fails account_error_def List.map_filter_simps map_filter_append
        map_filter_melCloud_on)
next
  case (success em r em' devices)
  have d: "\<And>ty. subseq (List.map_filter f (dispatch e ty n a r devices))
           (map (Pair ty) (case type_devices ty a of None \<Rightarrow> [] | Some ds \<Rightarrow> ds))"
    by (rule view_dispatch) (rule assms)+
  have "subseq (List.map_filter f (dispatch e ATA n a r devices) @
                List.map_filter f (dispatch e ATW n a r devices) @
                List.map_filter f (dispatch e ERV n a r devices)) (configured a)"
    unfolding configured_def
    using d [of ATA] d [of ATW] d [of ERV]
    by (intro list_emb_append_mono) (simp_all add: type_devices_def)
  with success assms show ?thesis
    by (simp add: startup_success List.map_filter_simps map_filter_append map_filter_melCloud_on)
qed

lemma constructed_startup: "subseq (constructed (startup e n a)) (configured a)"
  unfolding constructed_def
  by (rule view_startup) (simp_all add: constructed_device_effects [unfolded constructed_def])

lemma started_startup: "subseq (started (startup e n a)) (configured a)"
  unfolding started_def
  by (rule view_startup) (simp_all add: started_device_effects [unfolded started_def])

subsection \<open>Stages\<close>

lemma set_stages: "set (stages evs) = {s. \<exists>ev \<in> set evs. stage ev = Some s}"
  by (simp add: stages_def set_map_filter)

lemma stages_append: "stages (xs @ ys) = stages xs @ stages ys"
  by (simp add: stages_def map_filter_append)

lemma stages_Nil: "stages [] = []"
  by (simp add: stages_def List.map_filter_simps)

lemma stages_Cons:
  "stages (ev # evs) = (case stage ev of None \<Rightarrow> stages evs | Some s \<Rightarrow> s # stages evs)"
  by (cases "stage ev") (simp_all add: stages_def List.map_filter_simps)

lemma stages_melCloud_on: "stages (concat (map (melCloud_on n) em)) = []"
  unfolding stages_def by (rule map_filter_melCloud_on) simp

lemma stages_dispatch: "set (stages (dispatch e ty n a r devices)) \<subseteq> {type_stage ty}"
proof
  fix s assume "s \<in> set (stages (dispatch e ty n a r devices))"
  then obtain ev where ev: "ev \<in> set (dispatch e ty n a r devices)" "stage ev = Some s"
    by (auto simp: set_stages)
  from dispatch_events [OF ev(1)] ev(2) show "s \<in> {type_stage ty}"
    by (auto dest!: device_effects_events)
qed

lemma sorted_constant: "set xs \<subseteq> {c} \<Longrightarrow> sorted (xs :: nat list)"
  by (induction xs) auto

lemma stages_dispatch_sorted: "sorted (stages (dispatch e ty n a r devices))"
  by (rule sorted_constant) (rule stages_dispatch)

lemma stages_dispatch_ge: "s \<in> set (stages (dispatch e ty n a r devices)) \<Longrightarrow> s = type_stage ty"
  using stages_dispatch by blast

lemma stages_dispatches:
  "sorted (stages (dispatch e ATA n a r devices) @ stages (dispatch e ATW n a r devices) @
           stages (dispatch e ERV n a r devices)) \<and>
   (\<forall>s \<in> set (stages (dispatch e ATA n a r devices) @ stages (dispatch e ATW n a r devices) @
           stages (dispatch e ERV n a r devices)). 3 \<le> s)"
  by (auto simp: sorted_append stages_dispatch_sorted type_stage_def dest!: stages_dispatch_ge)


subsection \<open>Debug data\<close>



subsection \<open>Effects of refresh ticks\<close>

lemma controller_call_melCloud_on: "filter controller_call (concat (map (melCloud_on n) em)) = []"
  by (auto simp: filter_empty_conv dest!: melCloud_on_logs)

lemma constructed_melCloud_on: "constructed (concat (map (melCloud_on n) em)) = []"
  unfolding constructed_def by (rule map_filter_melCloud_on) simp

lemma refresh_tick_effects:
  "\<exists>logs. effects (refresh_tick n res st) = effects st @ logs \<and>
          filter controller_call logs = [] \<and> constructed logs = []"
proof (cases res)
  case (Pair em out)
  show ?thesis
  proof (cases out)
    case (Inl err)
    with Pair have "effects (refresh_tick n res st) =
        effects st @ concat (map (melCloud_on n) (em @ [Emit_error err]))"
      by (simp add: refresh_tick_def)
    then show ?thesis
      using controller_call_melCloud_on constructed_melCloud_on by blast
  next
    case (Inr devices)
    with Pair have "effects (refresh_tick n res st) = effects st @ concat (map (melCloud_on n) em)"
      by (simp add: refresh_tick_def)
    then show ?thesis
      using controller_call_melCloud_on constructed_melCloud_on by blast
  qed
qed

lemma fold_refresh_tick_effects:
  "\<exists>logs. effects (fold (refresh_tick n) ticks st) = effects st @ logs \<and>
          filter controller_call logs = [] \<and> constructed logs = []"
proof (induction ticks arbitrary: st)
  case Nil
  show ?case by (simp add: constructed_def List.map_filter_simps)
next
  case (Cons res ticks)
  obtain l1 where l1: "effects (refresh_tick n res st) = effects st @ l1"
    "filter controller_call l1 = []" "constructed l1 = []"
    using refresh_tick_effects by blast
  obtain l2 where l2: "effects (fold (refresh_tick n) ticks (refresh_tick n res st)) =
      effects (refresh_tick n res st) @ l2" "filter controller_call l2 = []" "constructed l2 = []"
    using Cons [of "refresh_tick n res st"] by blast
  have "effects (fold (refresh_tick n) (res # ticks) st) = effects st @ (l1 @ l2)"
    using l1 l2 by simp
  moreover have "filter controller_call (l1 @ l2) = []" using l1 l2 by simp
  moreover have "constructed (l1 @ l2) = []" using l1 l2 by (simp add: constructed_def map_filter_append)
  ultimately show ?case by blast
qed


section \<open>The startup, device by device\<close>

lemma device_loop_reached_failure:
  "device_loop e ty n a r devices ds =
     (concat (map (device_effects e ty n a r) (reached e ty a devices ds)),
      failure e ty a devices ds)"
proof (induction ds)
  case Nil
  show ?case by simp
next
  case (Cons d ds)
  show ?case
  proof (cases "eligible devices d")
    case True
    with Cons show ?thesis
      by (cases "thrown e ty a d") (simp_all add: device_loop_Cons_eligible del: device_loop.simps)
  next
    case False
    with Cons show ?thesis by (simp add: device_loop_Cons_skip del: device_loop.simps)
  qed
qed

lemma dispatch_type_effects: "dispatch e ty n a r devices = type_effects e ty n a r devices"
  by (simp add: dispatch_def type_effects_def device_loop_reached_failure split: option.splits)

lemma reached_no_throw:
  "(\<forall>x \<in> set ds. eligible devices x \<longrightarrow> thrown e ty a x = None) \<Longrightarrow>
   reached e ty a devices ds = filter (eligible devices) ds \<and> failure e ty a devices ds = None"
  by (induction ds) simp_all

lemma startup_by_device:
  "startup e n a =
     NewMelCloud (user a) (passwd a) (language a) (enableDebugMode a) #
     Connect n # concat (map (melCloud_on n) (fst (connect e a))) @
     (case snd (connect e a) of
        Inl err \<Rightarrow> [account_error n err]
      | Inr r \<Rightarrow>
          ChackDevicesList n (contextKey r) #
          concat (map (melCloud_on n) (fst (chackDevicesList e a (contextKey r)))) @
          (case snd (chackDevicesList e a (contextKey r)) of
             Inl err \<Rightarrow> [account_error n err]
           | Inr devices \<Rightarrow>
               ImpulseStart n [(''checkDevicesList'', refreshInterval_ms a)] #
               type_effects e ATA n a r devices @ type_effects e ATW n a r devices @
               type_effects e ERV n a r devices))"
  by (cases rule: startup_cases [of e a])
     (simp_all add: startup_connect_fails startup_discovery_fails startup_success dispatch_type_effects)


section \<open>Refresh intervals\<close>

lemma times1000_or_cases:
  "times1000_or x d = (case x of None \<Rightarrow> d | Some s \<Rightarrow> if s = 0 then d else s * 1000)"
  by (simp add: times1000_or_def split: option.splits)

text \<open>
  C5, as stated, fails: a negative \<^verbatim>\<open>refreshInterval\<close> is not replaced by the default
  of 120000 ms. The product \<^verbatim>\<open>-5 * 1000\<close> is truthy, so \<^verbatim>\<open>||\<close> keeps it.
\<close>

theorem negative_refreshInterval_is_kept:
  "refreshInterval (office\<lparr>refreshInterval := Some (- 5)\<rparr>) = Some (- 5) \<and>
   refreshInterval_ms (office\<lparr>refreshInterval := Some (- 5)\<rparr>) = - 5000 \<and>
   refreshInterval_ms (office\<lparr>refreshInterval := Some (- 5)\<rparr>) \<noteq> 120000"
  by (simp add: refreshInterval_ms_def times1000_or_def)

text \<open>
  C5, amended: the interval of the device-list timer is the configured
  \<^verbatim>\<open>refreshInterval\<close> (seconds) times 1000, and 120000 ms when the value is unset or
  zero; a negative value is kept, times 1000. Likewise \<^verbatim>\<open>deviceRefreshInterval\<close> times
  1000 is what every controller is constructed with, and 5000 ms when unset or zero.
  The timer started at line 105 is \<^verbatim>\<open>checkDevicesList\<close> with that sampling, and it is
  started whenever connect and discovery succeed.
\<close>

theorem refresh_intervals:
  "refreshInterval_ms a =
     (case refreshInterval a of None \<Rightarrow> 120000 | Some s \<Rightarrow> if s = 0 then 120000 else s * 1000) \<and>
   deviceRefreshInterval_ms a =
     (case deviceRefreshInterval a of None \<Rightarrow> 5000 | Some s \<Rightarrow> if s = 0 then 5000 else s * 1000) \<and>
   (\<forall>m timers. ImpulseStart m timers \<in> set (startup e n a) \<longrightarrow>
      timers = [(''checkDevicesList'', refreshInterval_ms a)]) \<and>
   (\<forall>ty m d r i. NewDevice ty m d r i \<in> set (startup e n a) \<longrightarrow> i = deviceRefreshInterval_ms a) \<and>
   (\<forall>em r em' devices.
      connect e a = (em, Inr r) \<and> chackDevicesList e a (contextKey r) = (em', Inr devices) \<longrightarrow>
      ImpulseStart n [(''checkDevicesList'', refreshInterval_ms a)] \<in> set (startup e n a))"
proof (intro conjI allI impI)
  show "refreshInterval_ms a =
     (case refreshInterval a of None \<Rightarrow> 120000 | Some s \<Rightarrow> if s = 0 then 120000 else s * 1000)"
    by (simp add: refreshInterval_ms_def times1000_or_cases)
  show "deviceRefreshInterval_ms a =
     (case deviceRefreshInterval a of None \<Rightarrow> 5000 | Some s \<Rightarrow> if s = 0 then 5000 else s * 1000)"
    by (simp add: deviceRefreshInterval_ms_def times1000_or_cases)
next
  fix m timers assume "ImpulseStart m timers \<in> set (startup e n a)"
  then show "timers = [(''checkDevicesList'', refreshInterval_ms a)]"
    by (simp add: startup_ImpulseStart)
next
  fix ty m d r i assume "NewDevice ty m d r i \<in> set (startup e n a)"
  then show "i = deviceRefreshInterval_ms a" by (simp add: startup_NewDevice)
next
  fix em r em' devices
  assume "connect e a = (em, Inr r) \<and> chackDevicesList e a (contextKey r) = (em', Inr devices)"
  then show "ImpulseStart n [(''checkDevicesList'', refreshInterval_ms a)] \<in> set (startup e n a)"
    by (simp add: startup_success)
qed

text \<open>The account \<open>office\<close> (60 s and 10 s) and the account \<open>home\<close> (both unset).\<close>

theorem refresh_intervals_witness:
  "refreshInterval_ms home = 120000 \<and> deviceRefreshInterval_ms home = 5000 \<and>
   refreshInterval_ms office = 60000 \<and> deviceRefreshInterval_ms office = 10000 \<and>
   ImpulseStart ''Office'' [(''checkDevicesList'', 60000)] \<in> set (startup cloud ''Office'' office) \<and>
   NewDevice ATA ''Office'' living_room session 10000 \<in> set (startup cloud ''Office'' office)"
proof -
  note th = refresh_intervals [of office cloud "''Office''"]
  have c: "connect cloud office = ([], Inr session) \<and>
           chackDevicesList cloud office (contextKey session) = ([], Inr reported)"
    by (simp add: cloud_def)
  have ms: "refreshInterval_ms office = 60000" "deviceRefreshInterval_ms office = 10000"
    using th by (simp_all add: office_def)
  from th c have "ImpulseStart ''Office'' [(''checkDevicesList'', refreshInterval_ms office)]
      \<in> set (startup cloud ''Office'' office)" by blast
  moreover have "NewDevice ATA ''Office'' living_room session 10000 \<in> set (startup cloud ''Office'' office)"
    by code_simp
  moreover have "refreshInterval_ms home = 120000 \<and> deviceRefreshInterval_ms home = 5000"
    using refresh_intervals [of home cloud "''Home''"] by (simp add: home_def)
  ultimately show ?thesis using ms by simp
qed

section \<open>Failure of a controller\<close>

text \<open>
  C2, as stated, fails: the \<^verbatim>\<open>try\<close> of a type encloses the whole \<^verbatim>\<open>for\<close> loop, so
  a controller whose \<^verbatim>\<open>start()\<close> rejects ends the loop of its type. In the account
  \<open>home\<close> the device \<open>bedroom\<close> follows \<open>living_room\<close> in \<^verbatim>\<open>ataDevices\<close>, is
  enabled, is reported by the cloud and has a controller that would start; it gets no
  controller once \<open>living_room\<close> failed.
\<close>

theorem sibling_not_started_after_start_failure:
  "type_devices ATA home = Some [living_room, bedroom] \<and>
   eligible reported living_room \<and> eligible reported bedroom \<and>
   thrown cloud_start_fails ATA home living_room = Some ''Error: timeout'' \<and>
   thrown cloud_start_fails ATA home bedroom = None \<and>
   dispatch cloud_start_fails ATA ''Home'' home session reported =
     [NewDevice ATA ''Home'' living_room session 5000, Start ATA ''Home'' living_room,
      Log Error ''Account: Home, ATA did finish launching error: Error: timeout'']"
  by code_simp

text \<open>
  C2, amended: when the constructor or the start call of a configured device throws
  during dispatch, the failure is caught by the \<^verbatim>\<open>catch\<close> of that device type and
  reported once; the devices before it have been constructed and started, the
  configured devices after it in the same list get no controller, and the dispatch
  loops of the device types that follow still run.
\<close>

theorem dispatch_stops_at_first_failure:
  assumes "type_devices ty a = Some (pre @ d # post)"
    and "\<forall>x \<in> set pre. eligible devices x \<longrightarrow> thrown e ty a x = None"
    and "eligible devices d" and "thrown e ty a d = Some err"
  shows "dispatch e ty n a r devices =
           concat (map (device_effects e ty n a r) (filter (eligible devices) pre)) @
           device_effects e ty n a r d @ [launching_error n ty err] \<and>
         (\<forall>em em'. connect e a = (em, Inr r) \<and> chackDevicesList e a (contextKey r) = (em', Inr devices) \<longrightarrow>
            (\<exists>front. startup e n a =
               front @ dispatch e ty n a r devices @
               concat (map (\<lambda>ty'. dispatch e ty' n a r devices)
                        (filter (\<lambda>ty'. type_stage ty < type_stage ty') [ATA, ATW, ERV]))))"
proof (intro conjI allI impI)
  show "dispatch e ty n a r devices =
           concat (map (device_effects e ty n a r) (filter (eligible devices) pre)) @
           device_effects e ty n a r d @ [launching_error n ty err]"
    using assms by (simp add: dispatch_def device_loop_throw del: device_loop.simps)
next
  fix em em'
  assume c: "connect e a = (em, Inr r) \<and> chackDevicesList e a (contextKey r) = (em', Inr devices)"
  then have s: "startup e n a =
     NewMelCloud (user a) (passwd a) (language a) (enableDebugMode a) #
     Connect n # concat (map (melCloud_on n) em) @
     ChackDevicesList n (contextKey r) # concat (map (melCloud_on n) em') @
     ImpulseStart n [(''checkDevicesList'', refreshInterval_ms a)] #
     dispatch e ATA n a r devices @ dispatch e ATW n a r devices @ dispatch e ERV n a r devices"
    by (simp add: startup_success)
  show "\<exists>front. startup e n a =
               front @ dispatch e ty n a r devices @
               concat (map (\<lambda>ty'. dispatch e ty' n a r devices)
                        (filter (\<lambda>ty'. type_stage ty < type_stage ty') [ATA, ATW, ERV]))"
  proof (cases ty)
    case ATA
    show ?thesis unfolding s ATA
      by (rule exI [of _ "NewMelCloud (user a) (passwd a) (language a) (enableDebugMode a) #
     Connect n # concat (map (melCloud_on n) em) @
     ChackDevicesList n (contextKey r) # concat (map (melCloud_on n) em') @
     [ImpulseStart n [(''checkDevicesList'', refreshInterval_ms a)]]"]) (simp add: type_stage_def)
  next
    case ATW
    show ?thesis unfolding s ATW
      by (rule exI [of _ "NewMelCloud (user a) (passwd a) (language a) (enableDebugMode a) #
     Connect n # concat (map (melCloud_on n) em) @
     ChackDevicesList n (contextKey r) # concat (map (melCloud_on n) em') @
     ImpulseStart n [(''checkDevicesList'', refreshInterval_ms a)] # dispatch e ATA n a r devices"])
        (simp add: type_stage_def)
  next
    case ERV
    show ?thesis unfolding s ERV
      by (rule exI [of _ "NewMelCloud (user a) (passwd a) (language a) (enableDebugMode a) #
     Connect n # concat (map (melCloud_on n) em) @
     ChackDevicesList n (contextKey r) # concat (map (melCloud_on n) em') @
     ImpulseStart n [(''checkDevicesList'', refreshInterval_ms a)] # dispatch e ATA n a r devices @
     dispatch e ATW n a r devices"])
        (simp add: type_stage_def)
  qed
qed

text \<open>The account \<open>home\<close> where \<^verbatim>\<open>start()\<close> of \<open>living_room\<close> rejects: the heat pump of
  the next type is still constructed.\<close>

theorem dispatch_stops_at_first_failure_witness:
  "dispatch cloud_start_fails ATA ''Home'' home session reported =
     device_effects cloud_start_fails ATA ''Home'' home session living_room @
     [launching_error ''Home'' ATA ''Error: timeout''] \<and>
   (\<exists>front. startup cloud_start_fails ''Home'' home =
      front @ dispatch cloud_start_fails ATA ''Home'' home session reported @
      dispatch cloud_start_fails ATW ''Home'' home session reported @
      dispatch cloud_start_fails ERV ''Home'' home session reported) \<and>
   NewDevice ATW ''Home'' boiler session 5000 \<in> set (dispatch cloud_start_fails ATW ''Home'' home session reported)"
proof -
  have 1: "type_devices ATA home = Some ([] @ living_room # [bedroom])"
    by (simp add: type_devices_def home_def)
  have 2: "\<forall>x \<in> set []. eligible reported x \<longrightarrow> thrown cloud_start_fails ATA home x = None"
    by simp
  have 3: "eligible reported living_room" by code_simp
  have 4: "thrown cloud_start_fails ATA home living_room = Some ''Error: timeout''" by code_simp
  have 5: "connect cloud_start_fails home = ([], Inr session) \<and>
           chackDevicesList cloud_start_fails home (contextKey session) = ([], Inr reported)"
    by (simp add: cloud_start_fails_def cloud_def)
  note th = dispatch_stops_at_first_failure [OF 1 2 3 4, of "''Home''" session]
  from th have a: "dispatch cloud_start_fails ATA ''Home'' home session reported =
     device_effects cloud_start_fails ATA ''Home'' home session living_room @
     [launching_error ''Home'' ATA ''Error: timeout'']" by simp
  from th [THEN conjunct2] 5 have b: "\<exists>front. startup cloud_start_fails ''Home'' home =
      front @ dispatch cloud_start_fails ATA ''Home'' home session reported @
      dispatch cloud_start_fails ATW ''Home'' home session reported @
      dispatch cloud_start_fails ERV ''Home'' home session reported"
    by (simp add: type_stage_def)
  have c: "NewDevice ATW ''Home'' boiler session 5000 \<in> set (dispatch cloud_start_fails ATW ''Home'' home session reported)"
    by code_simp
  from a b c show ?thesis by blast
qed

section \<open>The guard of the dispatch loop\<close>

text \<open>
  C3, as stated, fails in the direction ``if'': a device with \<^verbatim>\<open>displayMode > 0\<close> that
  the cloud reports gets no controller when the loop of its type was left before it
  was reached. Here the constructor for \<open>living_room\<close> throws, and \<open>bedroom\<close>, next in
  the list, enabled and reported, is not among the controllers constructed.
\<close>

theorem eligible_device_without_controller:
  "type_devices ATA home = Some [living_room, bedroom] \<and>
   displayMode bedroom = Some 1 \<and> deviceExistInMelCloud reported bedroom \<and>
   chackDevicesList cloud_constructor_fails home ''key'' = ([], Inr reported) \<and>
   constructed (didFinishLaunching cloud_constructor_fails [home]) = [(ATA, living_room), (ATW, boiler)]"
  by code_simp

text \<open>
  C3, amended: a controller is constructed, or started, only for a configured device
  whose \<^verbatim>\<open>displayMode\<close> is greater than 0 and whose id is the \<^verbatim>\<open>DeviceID\<close> of a device
  in the list the initial discovery returned; a device that fails either condition is
  skipped silently (the loop behaves as if the device were not configured: no event, no
  error). Conversely, when the loop reaches the device (no device before it in the
  list threw), its controller is constructed if and only if both conditions hold, and
  \<^verbatim>\<open>start()\<close> is called if and only if, moreover, the constructor returned.
\<close>

theorem dispatch_guard:
  "(\<not> (displayMode_on d \<and> deviceExistInMelCloud devices d) \<longrightarrow>
      device_loop e ty n a r devices (pre @ d # post) = device_loop e ty n a r devices (pre @ post)) \<and>
   (\<forall>ty' m d' r' i. NewDevice ty' m d' r' i \<in> set (fst (device_loop e ty n a r devices ds)) \<longrightarrow>
      displayMode_on d' \<and> deviceExistInMelCloud devices d' \<and> d' \<in> set ds) \<and>
   (\<forall>ty' m d'. Start ty' m d' \<in> set (fst (device_loop e ty n a r devices ds)) \<longrightarrow>
      displayMode_on d' \<and> deviceExistInMelCloud devices d' \<and> d' \<in> set ds) \<and>
   (\<forall>ty' m d' r' i. NewDevice ty' m d' r' i \<in> set (startup e n a) \<longrightarrow>
      displayMode_on d' \<and>
      (\<exists>em em' found. connect e a = (em, Inr r') \<and>
         chackDevicesList e a (contextKey r') = (em', Inr found) \<and> deviceExistInMelCloud found d')) \<and>
   ((\<forall>x \<in> set pre. eligible devices x \<longrightarrow> thrown e ty a x = None) \<longrightarrow>
      (NewDevice ty n d r (deviceRefreshInterval_ms a)
         \<in> set (fst (device_loop e ty n a r devices (pre @ d # post))) \<longleftrightarrow>
       displayMode_on d \<and> deviceExistInMelCloud devices d) \<and>
      (Start ty n d \<in> set (fst (device_loop e ty n a r devices (pre @ d # post))) \<longleftrightarrow>
       displayMode_on d \<and> deviceExistInMelCloud devices d \<and> new_Device e ty a d = None))"
proof (intro conjI allI impI)
  assume "\<not> (displayMode_on d \<and> deviceExistInMelCloud devices d)"
  then have "\<not> eligible devices d" by (auto simp: eligible_def)
  then show "device_loop e ty n a r devices (pre @ d # post) = device_loop e ty n a r devices (pre @ post)"
    by (rule device_loop_skip)
next
  fix ty' m d' r' i
  assume "NewDevice ty' m d' r' i \<in> set (fst (device_loop e ty n a r devices ds))"
  from device_loop_NewDevice [OF this]
  show "displayMode_on d'" "deviceExistInMelCloud devices d'" "d' \<in> set ds"
    by (simp_all add: eligible_def)
next
  fix ty' m d'
  assume "Start ty' m d' \<in> set (fst (device_loop e ty n a r devices ds))"
  from device_loop_Start [OF this]
  show "displayMode_on d'" "deviceExistInMelCloud devices d'" "d' \<in> set ds"
    by (simp_all add: eligible_def)
next
  fix ty' m d' r' i
  assume "NewDevice ty' m d' r' i \<in> set (startup e n a)"
  from startup_NewDevice [OF this]
  show "displayMode_on d'"
    "\<exists>em em' found. connect e a = (em, Inr r') \<and>
         chackDevicesList e a (contextKey r') = (em', Inr found) \<and> deviceExistInMelCloud found d'"
    by (auto simp: eligible_def)
next
  assume reach: "\<forall>x \<in> set pre. eligible devices x \<longrightarrow> thrown e ty a x = None"
  show "NewDevice ty n d r (deviceRefreshInterval_ms a)
         \<in> set (fst (device_loop e ty n a r devices (pre @ d # post))) \<longleftrightarrow>
       displayMode_on d \<and> deviceExistInMelCloud devices d"
  proof
    assume "NewDevice ty n d r (deviceRefreshInterval_ms a)
         \<in> set (fst (device_loop e ty n a r devices (pre @ d # post)))"
    from device_loop_NewDevice [OF this]
    show "displayMode_on d \<and> deviceExistInMelCloud devices d" by (simp add: eligible_def)
  next
    assume "displayMode_on d \<and> deviceExistInMelCloud devices d"
    then have "eligible devices d" by (simp add: eligible_def)
    from device_loop_reached [OF reach this] device_effects_NewDevice
    show "NewDevice ty n d r (deviceRefreshInterval_ms a)
         \<in> set (fst (device_loop e ty n a r devices (pre @ d # post)))" by blast
  qed
  show "Start ty n d \<in> set (fst (device_loop e ty n a r devices (pre @ d # post))) \<longleftrightarrow>
       displayMode_on d \<and> deviceExistInMelCloud devices d \<and> new_Device e ty a d = None"
  proof
    assume "Start ty n d \<in> set (fst (device_loop e ty n a r devices (pre @ d # post)))"
    from device_loop_Start [OF this]
    show "displayMode_on d \<and> deviceExistInMelCloud devices d \<and> new_Device e ty a d = None"
      by (simp add: eligible_def)
  next
    assume h: "displayMode_on d \<and> deviceExistInMelCloud devices d \<and> new_Device e ty a d = None"
    then have "eligible devices d" by (simp add: eligible_def)
    from device_loop_reached [OF reach this] h device_effects_Start
    show "Start ty n d \<in> set (fst (device_loop e ty n a r devices (pre @ d # post)))" by blast
  qed
qed

text \<open>A disabled device and a device the cloud does not report are skipped; the
  enabled, reported \<open>bedroom\<close> is constructed and started.\<close>

theorem dispatch_guard_witness:
  "device_loop cloud ATA ''Home'' home session reported [living_room, bedroom\<lparr>displayMode := Some 0\<rparr>] =
   device_loop cloud ATA ''Home'' home session reported [living_room] \<and>
   device_loop cloud ATA ''Home'' home session reported
     [living_room, bedroom\<lparr>deviceId := ''D9''\<rparr>, boiler] =
   device_loop cloud ATA ''Home'' home session reported [living_room, boiler] \<and>
   NewDevice ATA ''Home'' bedroom session 5000
     \<in> set (fst (device_loop cloud ATA ''Home'' home session reported [living_room, bedroom])) \<and>
   Start ATA ''Home'' bedroom
     \<in> set (fst (device_loop cloud ATA ''Home'' home session reported [living_room, bedroom])) \<and>
   displayMode_on living_room \<and> deviceExistInMelCloud reported living_room"
proof -
  have off: "\<not> (displayMode_on (bedroom\<lparr>displayMode := Some 0\<rparr>) \<and>
                deviceExistInMelCloud reported (bedroom\<lparr>displayMode := Some 0\<rparr>))"
    by (simp add: displayMode_on_def)
  have absent: "\<not> (displayMode_on (bedroom\<lparr>deviceId := ''D9''\<rparr>) \<and>
                deviceExistInMelCloud reported (bedroom\<lparr>deviceId := ''D9''\<rparr>))"
    by (simp add: deviceExistInMelCloud_def reported_def)
  have reach: "\<forall>x \<in> set [living_room]. eligible reported x \<longrightarrow> thrown cloud ATA home x = None"
    by (simp add: thrown_def cloud_def)
  have on: "displayMode_on bedroom \<and> deviceExistInMelCloud reported bedroom"
    by (simp add: displayMode_on_def deviceExistInMelCloud_def reported_def bedroom_def)
  have ctor: "new_Device cloud ATA home bedroom = None" by (simp add: cloud_def)
  have ms: "deviceRefreshInterval_ms home = 5000"
    by (simp add: deviceRefreshInterval_ms_def times1000_or_def home_def)
  have 1: "device_loop cloud ATA ''Home'' home session reported
             ([living_room] @ bedroom\<lparr>displayMode := Some 0\<rparr> # []) =
           device_loop cloud ATA ''Home'' home session reported ([living_room] @ [])"
    using dispatch_guard [where d = "bedroom\<lparr>displayMode := Some 0\<rparr>" and devices = reported
        and pre = "[living_room]" and post = "[]" and e = cloud and ty = ATA and n = "''Home''"
        and a = home and r = session] off by blast
  have 2: "device_loop cloud ATA ''Home'' home session reported
             ([living_room] @ bedroom\<lparr>deviceId := ''D9''\<rparr> # [boiler]) =
           device_loop cloud ATA ''Home'' home session reported ([living_room] @ [boiler])"
    using dispatch_guard [where d = "bedroom\<lparr>deviceId := ''D9''\<rparr>" and devices = reported
        and pre = "[living_room]" and post = "[boiler]" and e = cloud and ty = ATA and n = "''Home''"
        and a = home and r = session] absent by blast
  note th = dispatch_guard [where d = bedroom and devices = reported
        and pre = "[living_room]" and post = "[]" and e = cloud and ty = ATA and n = "''Home''"
        and a = home and r = session and ds = "[living_room, bedroom]"]
  from th reach on have 3: "NewDevice ATA ''Home'' bedroom session (deviceRefreshInterval_ms home)
     \<in> set (fst (device_loop cloud ATA ''Home'' home session reported ([living_room] @ bedroom # [])))"
    by blast
  from th reach on ctor have 4: "Start ATA ''Home'' bedroom
     \<in> set (fst (device_loop cloud ATA ''Home'' home session reported ([living_room] @ bedroom # [])))"
    by blast
  have "NewDevice ATA ''Home'' living_room session 5000
     \<in> set (fst (device_loop cloud ATA ''Home'' home session reported [living_room, bedroom]))"
    by code_simp
  with th have 5: "displayMode_on living_room \<and> deviceExistInMelCloud reported living_room"
    by blast
  from 1 2 3 4 5 ms show ?thesis by simp
qed

section \<open>Failure of connect or discovery\<close>

text \<open>
  C4: take two accounts of the configuration, at positions \<open>i\<close> and \<open>j\<close>, whose
  \<^verbatim>\<open>connect()\<close> is attempted; for the first, connect or the initial discovery
  rejects, for the second both succeed. Then the effects of the second are exactly
  those it has when it is configured alone, ending with the dispatch of its three
  device lists; the first constructs and starts no controller, its failure is reported
  as the last effect of its iteration, and the loop goes on to the account after it.
\<close>

theorem connect_failure_is_isolated:
  assumes "i < length (account_loop e [] accs)" and "j < length (account_loop e [] accs)"
    and "Connect m \<in> set (account_loop e [] accs ! i)"
    and "Connect m' \<in> set (account_loop e [] accs ! j)"
    and "(\<exists>err. snd (connect e (accs ! i)) = Inl err) \<or>
         (\<exists>r err. snd (connect e (accs ! i)) = Inr r \<and>
                  snd (chackDevicesList e (accs ! i) (contextKey r)) = Inl err)"
    and "snd (connect e (accs ! j)) = Inr r"
    and "snd (chackDevicesList e (accs ! j) (contextKey r)) = Inr devices"
  shows "account_loop e [] accs ! j = didFinishLaunching e [accs ! j] \<and>
         (\<exists>front. account_loop e [] accs ! j =
            front @ dispatch e ATA m' (accs ! j) r devices @ dispatch e ATW m' (accs ! j) r devices @
            dispatch e ERV m' (accs ! j) r devices) \<and>
         filter controller_call (account_loop e [] accs ! i) = [] \<and>
         (\<exists>front err. account_loop e [] accs ! i = front @ [account_error m err]) \<and>
         (Suc i < length accs \<longrightarrow> Suc i < length (account_loop e [] accs))"
proof -
  note A = account_loop_reached [OF assms(1) assms(3)]
  note B = account_loop_reached [OF assms(2) assms(4)]
  from B have eqB: "account_loop e [] accs ! j = didFinishLaunching e [accs ! j]"
    by (simp add: didFinishLaunching_single)
  obtain em where em: "connect e (accs ! j) = (em, Inr r)"
    using assms(6) by (cases "connect e (accs ! j)") simp
  obtain em' where em': "chackDevicesList e (accs ! j) (contextKey r) = (em', Inr devices)"
    using assms(7) by (cases "chackDevicesList e (accs ! j) (contextKey r)") simp
  have "account_loop e [] accs ! j =
     (Push m' # debug_log e m' (accs ! j) @
      NewMelCloud (user (accs ! j)) (passwd (accs ! j)) (language (accs ! j))
        (enableDebugMode (accs ! j)) #
      Connect m' # concat (map (melCloud_on m') em) @
      ChackDevicesList m' (contextKey r) # concat (map (melCloud_on m') em') @
      [ImpulseStart m' [(''checkDevicesList'', refreshInterval_ms (accs ! j))]]) @
     dispatch e ATA m' (accs ! j) r devices @ dispatch e ATW m' (accs ! j) r devices @
     dispatch e ERV m' (accs ! j) r devices"
    using B by (simp add: startup_success [OF em em'])
  then have front: "\<exists>front. account_loop e [] accs ! j =
            front @ dispatch e ATA m' (accs ! j) r devices @ dispatch e ATW m' (accs ! j) r devices @
            dispatch e ERV m' (accs ! j) r devices" by (rule exI)
  note N = no_controller_without_discovery [OF assms(5), of m]
  from A N have none: "filter controller_call (account_loop e [] accs ! i) = []"
    by (simp add: debug_log_no_controller)
  from N obtain front err where "startup e m (accs ! i) = front @ [account_error m err]" by blast
  with A have "account_loop e [] accs ! i =
      (Push m # debug_log e m (accs ! i) @ front) @ [account_error m err]" by simp
  then have rep: "\<exists>front err. account_loop e [] accs ! i = front @ [account_error m err]" by blast
  from eqB front none rep A show ?thesis by blast
qed

text \<open>\<open>home\<close> cannot log in, \<open>office\<close> can.\<close>

theorem connect_failure_is_isolated_witness:
  "account_loop cloud_home_offline [] [home, office] ! 1 = didFinishLaunching cloud_home_offline [office] \<and>
   NewDevice ATA ''Office'' living_room session 10000
     \<in> set (account_loop cloud_home_offline [] [home, office] ! 1) \<and>
   filter controller_call (account_loop cloud_home_offline [] [home, office] ! 0) = [] \<and>
   length (account_loop cloud_home_offline [] [home, office]) = 2"
proof -
  have l: "length (account_loop cloud_home_offline [] [home, office]) = 2" by code_simp
  have 1: "0 < length (account_loop cloud_home_offline [] [home, office])"
    and 2: "1 < length (account_loop cloud_home_offline [] [home, office])" using l by simp_all
  have 3: "Connect ''Home'' \<in> set (account_loop cloud_home_offline [] [home, office] ! 0)"
    by code_simp
  have 4: "Connect ''Office'' \<in> set (account_loop cloud_home_offline [] [home, office] ! 1)"
    by code_simp
  have 5: "(\<exists>err. snd (connect cloud_home_offline ([home, office] ! 0)) = Inl err) \<or>
         (\<exists>r err. snd (connect cloud_home_offline ([home, office] ! 0)) = Inr r \<and>
            snd (chackDevicesList cloud_home_offline ([home, office] ! 0) (contextKey r)) = Inl err)"
    by (simp add: cloud_home_offline_def cloud_def home_def)
  have 6: "snd (connect cloud_home_offline ([home, office] ! 1)) = Inr session"
    by (simp add: cloud_home_offline_def cloud_def office_def)
  have 7: "snd (chackDevicesList cloud_home_offline ([home, office] ! 1) (contextKey session)) = Inr reported"
    by (simp add: cloud_home_offline_def cloud_def)
  note th = connect_failure_is_isolated [OF 1 2 3 4 5 6 7]
  have "NewDevice ATA ''Office'' living_room session 10000
     \<in> set (account_loop cloud_home_offline [] [home, office] ! 1)" by code_simp
  with th l show ?thesis by simp
qed

section \<open>Reserved account names\<close>

text \<open>
  C10, as stated, fails: not every account configured later under a reserved name is
  treated as a duplicate. The check of the mandatory fields (line 39) comes before the
  check of the name (line 45), so a namesake without a password gets the warning for
  a missing field, not the one for a duplicate name. Here \<open>home\<close> cannot log in and has
  reserved its name.
\<close>

theorem namesake_without_password_is_not_a_duplicate:
  "name (home\<lparr>passwd := None\<rparr>) = name home \<and>
   snd (connect cloud_home_offline home) = Inl ''Error: login'' \<and>
   length (account_loop cloud_home_offline [] [home, home\<lparr>passwd := None\<rparr>]) = 2 \<and>
   account_loop cloud_home_offline [] [home, home\<lparr>passwd := None\<rparr>] ! 1 =
     [Log Warn ''Name: OK, user: OK, password: undefined, language: OK in config missing.''] \<and>
   account_loop cloud_home_offline [] [home, home\<lparr>passwd := None\<rparr>] ! 1 \<noteq>
     [Log Warn ''Account name: Home, must be unique.'']"
  by code_simp

text \<open>
  C10, amended: for an account that passes validation, the write to \<^verbatim>\<open>accountsName\<close>
  is the first effect of its iteration, before \<^verbatim>\<open>connect()\<close> is called, and the name
  is in the list after the iteration whatever connect and discovery do (the
  environment is arbitrary). An account configured later under the same name, with
  its mandatory fields present, gets the warning for a duplicate name instead of a
  startup when the loop examines it.
\<close>

theorem name_is_reserved_before_connect:
  assumes "mandatory a" and "text_of (name a) \<notin> set ns"
  shows "(\<exists>rest. snd (snd (account_body e ns a)) = Push (text_of (name a)) # rest \<and>
            Connect (text_of (name a)) \<in> set rest) \<and>
         fst (account_body e ns a) = Next \<and>
         fst (snd (account_body e ns a)) = ns @ [text_of (name a)] \<and>
         (\<forall>mid b rest.
            mandatory b \<and> name b = name a \<and>
            Suc (length mid) < length (account_loop e ns (a # mid @ b # rest)) \<longrightarrow>
            account_loop e ns (a # mid @ b # rest) ! Suc (length mid) =
              [Log Warn (''Account name: '' @ text_of (name a) @ '', must be unique.'')])"
proof (intro conjI allI impI)
  let ?n = "text_of (name a)"
  note body = account_body_valid [OF assms, of e]
  have "Connect ?n \<in> set (debug_log e ?n a @ startup e ?n a)" by (simp add: startup_Connect)
  with body show "\<exists>rest. snd (snd (account_body e ns a)) = Push ?n # rest \<and> Connect ?n \<in> set rest"
    by simp
  from body show "fst (account_body e ns a) = Next" by simp
  from body show "fst (snd (account_body e ns a)) = ns @ [?n]" by simp
  fix mid b rest
  assume h: "mandatory b \<and> name b = name a \<and>
            Suc (length mid) < length (account_loop e ns (a # mid @ b # rest))"
  let ?later = "account_loop e (ns @ [?n]) (mid @ b # rest)"
  from body have unfold: "account_loop e ns (a # mid @ b # rest) =
      (Push ?n # debug_log e ?n a @ startup e ?n a) # ?later" by simp
  with h have len: "length mid < length ?later" by simp
  have nth: "(mid @ b # rest) ! length mid = b" by simp
  from h have "mandatory ((mid @ b # rest) ! length mid)"
    "text_of (name ((mid @ b # rest) ! length mid)) \<in> set (ns @ [?n])" by (simp_all add: nth)
  from account_loop_duplicate [OF len this]
  have "?later ! length mid = [Log Warn (''Account name: '' @ text_of (name b) @ '', must be unique.'')]"
    by (simp add: nth)
  with unfold h show "account_loop e ns (a # mid @ b # rest) ! Suc (length mid) =
              [Log Warn (''Account name: '' @ ?n @ '', must be unique.'')]" by simp
qed

text \<open>\<open>home\<close> cannot log in; a second account named \<^verbatim>\<open>Home\<close>, two places later, is
  rejected as a duplicate.\<close>

theorem name_is_reserved_before_connect_witness:
  "snd (connect cloud_home_offline home) = Inl ''Error: login'' \<and>
   fst (snd (account_body cloud_home_offline [] home)) = [''Home''] \<and>
   account_loop cloud_home_offline [] [home, office, home\<lparr>user := Some ''carl@example.org''\<rparr>] ! 2 =
     [Log Warn ''Account name: Home, must be unique.'']"
proof -
  have 1: "mandatory home" by code_simp
  have 2: "text_of (name home) \<notin> set []" by simp
  note th = name_is_reserved_before_connect [OF 1 2, of cloud_home_offline]
  have n: "text_of (name home) = ''Home''" by (simp add: home_def text_of_def)
  have c: "snd (connect cloud_home_offline home) = Inl ''Error: login''"
    by (simp add: cloud_home_offline_def cloud_def home_def)
  have b: "mandatory (home\<lparr>user := Some ''carl@example.org''\<rparr>) \<and>
           name (home\<lparr>user := Some ''carl@example.org''\<rparr>) = name home"
    by (simp add: mandatory_def truthy_def home_def)
  have l: "Suc (length [office]) <
     length (account_loop cloud_home_offline [] (home # [office] @ home\<lparr>user := Some ''carl@example.org''\<rparr> # []))"
    by code_simp
  from th b l have "account_loop cloud_home_offline []
       (home # [office] @ home\<lparr>user := Some ''carl@example.org''\<rparr> # []) ! Suc (length [office]) =
     [Log Warn (''Account name: '' @ text_of (name home) @ '', must be unique.'')]" by blast
  then have d: "account_loop cloud_home_offline [] [home, office, home\<lparr>user := Some ''carl@example.org''\<rparr>] ! 2 =
     [Log Warn ''Account name: Home, must be unique.'']" by (simp add: n numeral_2_eq_2)
  from th have "fst (snd (account_body cloud_home_offline [] home)) = [''Home'']" by (simp add: n)
  with c d show ?thesis by simp
qed


section \<open>Rejected accounts\<close>

text \<open>
  C1 is not what the code does. The first account lacks \<^verbatim>\<open>user\<close>; the handler logs the
  warning and executes \<^verbatim>\<open>return\<close> (line 41), which ends the handler and with it the
  loop over the accounts: the account \<open>home\<close>, configured after it, is never connected,
  although alone it connects and gets its three controllers.
\<close>

theorem missing_field_stops_later_accounts:
  "\<not> mandatory (office\<lparr>user := None\<rparr>) \<and> mandatory home \<and>
   didFinishLaunching cloud [office\<lparr>user := None\<rparr>, home] =
     [Log Warn ''Name: OK, user: undefined, password: OK, language: OK in config missing.''] \<and>
   Connect ''Home'' \<in> set (didFinishLaunching cloud [home]) \<and>
   constructed (didFinishLaunching cloud [home]) = [(ATA, living_room), (ATA, bedroom), (ATW, boiler)]"
  by code_simp


text \<open>
  C6 is not what the code does. The second account repeats the name of the first: it is
  rejected with the warning before any call to the cloud, and the first has run
  unaffected, but the \<^verbatim>\<open>return\<close> of line 47 also ends the loop: the account \<open>office\<close>,
  configured after the duplicate, is never started, although it starts when the
  duplicate is not in the configuration.
\<close>

theorem duplicate_name_stops_later_accounts:
  "mandatory office \<and> name (home\<lparr>user := Some ''carl@example.org''\<rparr>) = name home \<and>
   didFinishLaunching cloud [home, home\<lparr>user := Some ''carl@example.org''\<rparr>, office] =
     didFinishLaunching cloud [home] @ [Log Warn ''Account name: Home, must be unique.''] \<and>
   Connect ''Office'' \<in> set (didFinishLaunching cloud [home, office]) \<and>
   constructed (didFinishLaunching cloud [home, office]) =
     [(ATA, living_room), (ATA, bedroom), (ATW, boiler), (ATA, living_room)] \<and>
   constructed (didFinishLaunching cloud [home, home\<lparr>user := Some ''carl@example.org''\<rparr>, office]) =
     [(ATA, living_room), (ATA, bedroom), (ATW, boiler)]"
  by code_simp

section \<open>Order of the startup\<close>

text \<open>
  C8: the startup of one account is, in this order, the construction of the session
  object, connect, device-list discovery, scheduler start, then the effects of the ATA
  list, of the ATW list and of the ERV list, each call followed by what the listeners
  did while it was pending; a rejected connect or discovery ends it with the one error
  line. The effects of a type are those of the devices the loop gets to, one device
  after the other in the order of the configuration (constructor, \<^verbatim>\<open>start()\<close>,
  then the publication and the lines of the listeners), and when no controller throws
  these are all the enabled, reported devices of the list. So the stages of the calls
  in the trace are sorted, connect, discovery and scheduler start occur at most once,
  and the controllers constructed and started follow the order type, then
  configuration.
\<close>

theorem startup_order:
  "startup e n a =
     NewMelCloud (user a) (passwd a) (language a) (enableDebugMode a) #
     Connect n # concat (map (melCloud_on n) (fst (connect e a))) @
     (case snd (connect e a) of
        Inl err \<Rightarrow> [account_error n err]
      | Inr r \<Rightarrow>
          ChackDevicesList n (contextKey r) #
          concat (map (melCloud_on n) (fst (chackDevicesList e a (contextKey r)))) @
          (case snd (chackDevicesList e a (contextKey r)) of
             Inl err \<Rightarrow> [account_error n err]
           | Inr devices \<Rightarrow>
               ImpulseStart n [(''checkDevicesList'', refreshInterval_ms a)] #
               type_effects e ATA n a r devices @ type_effects e ATW n a r devices @
               type_effects e ERV n a r devices)) \<and>
   (type_devices ty a = Some ds \<and>
    (\<forall>x \<in> set ds. eligible found x \<longrightarrow> thrown e ty a x = None) \<longrightarrow>
      type_effects e ty n a s found =
        concat (map (device_effects e ty n a s) (filter (eligible found) ds))) \<and>
   sorted (stages (startup e n a)) \<and>
   distinct (filter (\<lambda>s. s < 3) (stages (startup e n a))) \<and>
   subseq (constructed (startup e n a)) (configured a) \<and>
   subseq (started (startup e n a)) (configured a)"
proof (intro conjI impI)
  show "startup e n a =
     NewMelCloud (user a) (passwd a) (language a) (enableDebugMode a) #
     Connect n # concat (map (melCloud_on n) (fst (connect e a))) @
     (case snd (connect e a) of
        Inl err \<Rightarrow> [account_error n err]
      | Inr r \<Rightarrow>
          ChackDevicesList n (contextKey r) #
          concat (map (melCloud_on n) (fst (chackDevicesList e a (contextKey r)))) @
          (case snd (chackDevicesList e a (contextKey r)) of
             Inl err \<Rightarrow> [account_error n err]
           | Inr devices \<Rightarrow>
               ImpulseStart n [(''checkDevicesList'', refreshInterval_ms a)] #
               type_effects e ATA n a r devices @ type_effects e ATW n a r devices @
               type_effects e ERV n a r devices))"
    by (rule startup_by_device)
next
  assume "type_devices ty a = Some ds \<and>
    (\<forall>x \<in> set ds. eligible found x \<longrightarrow> thrown e ty a x = None)"
  then show "type_effects e ty n a s found =
        concat (map (device_effects e ty n a s) (filter (eligible found) ds))"
    by (simp add: type_effects_def reached_no_throw)
next
  have order: "sorted (stages (startup e n a)) \<and>
     distinct (filter (\<lambda>s. s < 3) (stages (startup e n a)))"
  proof (cases rule: startup_cases [of e a])
    case (connect_fails em err)
    then show ?thesis
      by (simp add: startup_connect_fails account_error_def stages_append stages_melCloud_on
          stages_Nil stages_Cons)
  next
    case (discovery_fails em r em' err)
    then show ?thesis
      by (simp add: startup_discovery_fails account_error_def stages_append stages_melCloud_on
          stages_Nil stages_Cons)
  next
    case (success em r em' devices)
    define D where "D = stages (dispatch e ATA n a r devices) @
      stages (dispatch e ATW n a r devices) @ stages (dispatch e ERV n a r devices)"
    have st: "stages (startup e n a) = 0 # 1 # 2 # D"
      using success
      by (simp add: D_def startup_success stages_append stages_melCloud_on stages_Nil stages_Cons)
    have D: "sorted D" "\<forall>s \<in> set D. 3 \<le> s"
      unfolding D_def using stages_dispatches [of e n a r devices] by blast+
    from D(2) have "filter (\<lambda>s. s < 3) D = []" by (auto simp: filter_empty_conv)
    with D show ?thesis unfolding st by auto
  qed
  from order show "sorted (stages (startup e n a))" by blast
  from order show "distinct (filter (\<lambda>s. s < 3) (stages (startup e n a)))" by blast
  show "subseq (constructed (startup e n a)) (configured a)" by (rule constructed_startup)
  show "subseq (started (startup e n a)) (configured a)" by (rule started_startup)
qed

text \<open>The account \<open>home\<close> in the cloud where every call succeeds: two air conditioners,
  then the heat pump, each constructed, started and published before the next.\<close>

theorem startup_order_witness:
  "startup cloud ''Home'' home =
     NewMelCloud (Some ''anna@example.org'') (Some ''secret'') (Some ''0'') True #
     Connect ''Home'' # ChackDevicesList ''Home'' ''key'' #
     ImpulseStart ''Home'' [(''checkDevicesList'', 120000)] #
     device_effects cloud ATA ''Home'' home session living_room @
     device_effects cloud ATA ''Home'' home session bedroom @
     device_effects cloud ATW ''Home'' home session boiler \<and>
   device_effects cloud ATA ''Home'' home session bedroom =
     [NewDevice ATA ''Home'' bedroom session 5000, Start ATA ''Home'' bedroom,
      PublishExternalAccessories ''homebridge-melcloud-control'' [''Bedroom''],
      Log Success ''Home, Air Conditioner Bedroom, published as external accessory.'']"
proof -
  note th = startup_order [where e = cloud and n = "''Home''" and a = home and found = reported
      and s = session]
  have ok: "\<And>ty ds. \<forall>x \<in> set ds. eligible reported x \<longrightarrow> thrown cloud ty home x = None"
    by (simp add: thrown_def cloud_def)
  have ata: "type_effects cloud ATA ''Home'' home session reported =
      device_effects cloud ATA ''Home'' home session living_room @
      device_effects cloud ATA ''Home'' home session bedroom"
  proof -
    have l: "type_devices ATA home = Some [living_room, bedroom]"
      by (simp add: type_devices_def home_def)
    have f: "filter (eligible reported) [living_room, bedroom] = [living_room, bedroom]"
      by code_simp
    from th [where ty = ATA and ds = "[living_room, bedroom]"] l ok
    have "type_effects cloud ATA ''Home'' home session reported =
        concat (map (device_effects cloud ATA ''Home'' home session)
          (filter (eligible reported) [living_room, bedroom]))" by blast
    then show ?thesis unfolding f by simp
  qed
  have atw: "type_effects cloud ATW ''Home'' home session reported =
      device_effects cloud ATW ''Home'' home session boiler"
  proof -
    have l: "type_devices ATW home = Some [boiler]" by (simp add: type_devices_def home_def)
    have f: "filter (eligible reported) [boiler] = [boiler]" by code_simp
    from th [where ty = ATW and ds = "[boiler]"] l ok
    have "type_effects cloud ATW ''Home'' home session reported =
        concat (map (device_effects cloud ATW ''Home'' home session)
          (filter (eligible reported) [boiler]))" by blast
    then show ?thesis unfolding f by simp
  qed
  have erv: "type_effects cloud ERV ''Home'' home session reported = []"
  proof -
    have l: "type_devices ERV home = Some []" by (simp add: type_devices_def home_def)
    from th [where ty = ERV and ds = "[]", THEN conjunct2, THEN conjunct1] l
    have "type_effects cloud ERV ''Home'' home session reported =
        concat (map (device_effects cloud ERV ''Home'' home session)
          (filter (eligible reported) []))" by simp
    then show ?thesis by simp
  qed
  have c: "connect cloud home = ([], Inr session)"
    "chackDevicesList cloud home ''key'' = ([], Inr reported)"
    by (simp_all add: cloud_def)
  have k: "contextKey session = ''key''" by (simp add: session_def)
  have fields: "user home = Some ''anna@example.org''" "passwd home = Some ''secret''"
    "language home = Some ''0''" "enableDebugMode home = True"
    by (simp_all add: home_def)
  have ms: "refreshInterval_ms home = 120000"
    by (simp add: refreshInterval_ms_def times1000_or_def home_def)
  from th [THEN conjunct1] have "startup cloud ''Home'' home =
     NewMelCloud (Some ''anna@example.org'') (Some ''secret'') (Some ''0'') True #
     Connect ''Home'' # ChackDevicesList ''Home'' ''key'' #
     ImpulseStart ''Home'' [(''checkDevicesList'', 120000)] #
     device_effects cloud ATA ''Home'' home session living_room @
     device_effects cloud ATA ''Home'' home session bedroom @
     device_effects cloud ATW ''Home'' home session boiler"
    by (simp add: c k fields ms ata atw erv)
  moreover have "device_effects cloud ATA ''Home'' home session bedroom =
     [NewDevice ATA ''Home'' bedroom session 5000, Start ATA ''Home'' bedroom,
      PublishExternalAccessories ''homebridge-melcloud-control'' [''Bedroom''],
      Log Success ''Home, Air Conditioner Bedroom, published as external accessory.'']"
    by code_simp
  ultimately show ?thesis by blast
qed

section \<open>Debug output\<close>



section \<open>Refresh ticks and controllers\<close>

text \<open>
  C7: refresh ticks never construct or start a controller. After any number of ticks,
  whatever they return, the calls on controllers in the trace are those of the startup;
  every controller was constructed once at most per configured device, for a device
  of the list that the initial discovery returned. A tick only replaces the stored
  list (or keeps it, when it failed).
\<close>

theorem refresh_ticks_start_no_controller:
  "filter controller_call (effects (fold (refresh_tick n) ticks st)) =
     filter controller_call (effects st) \<and>
   filter controller_call (effects (fold (refresh_tick n) ticks (launched e n a))) =
     filter controller_call (startup e n a) \<and>
   subseq (constructed (effects (fold (refresh_tick n) ticks (launched e n a)))) (configured a) \<and>
   (\<forall>ty m d r i.
      NewDevice ty m d r i \<in> set (effects (fold (refresh_tick n) ticks (launched e n a))) \<longrightarrow>
      (\<exists>em em' found. connect e a = (em, Inr r) \<and>
         chackDevicesList e a (contextKey r) = (em', Inr found) \<and>
         snapshot (launched e n a) = found \<and> deviceExistInMelCloud found d)) \<and>
   snapshot (refresh_tick n (em, Inr devices) st) = devices \<and>
   snapshot (refresh_tick n (em, Inl err) st) = snapshot st"
proof (intro conjI allI impI)
  obtain logs where logs: "effects (fold (refresh_tick n) ticks st) = effects st @ logs"
    "filter controller_call logs = []" using fold_refresh_tick_effects by blast
  then show "filter controller_call (effects (fold (refresh_tick n) ticks st)) =
     filter controller_call (effects st)" by simp
next
  obtain logs where logs: "effects (fold (refresh_tick n) ticks (launched e n a)) =
      effects (launched e n a) @ logs"
    "filter controller_call logs = []" "constructed logs = []"
    using fold_refresh_tick_effects by blast
  have l: "effects (launched e n a) = startup e n a" by (simp add: launched_def)
  from logs l show "filter controller_call (effects (fold (refresh_tick n) ticks (launched e n a))) =
     filter controller_call (startup e n a)" by simp
  from logs l have "constructed (effects (fold (refresh_tick n) ticks (launched e n a))) =
     constructed (startup e n a)" by (simp add: constructed_def map_filter_append)
  with constructed_startup
  show "subseq (constructed (effects (fold (refresh_tick n) ticks (launched e n a)))) (configured a)"
    by simp
  fix ty m d r i
  assume "NewDevice ty m d r i \<in> set (effects (fold (refresh_tick n) ticks (launched e n a)))"
  with logs l have "NewDevice ty m d r i \<in> set (startup e n a) \<or> NewDevice ty m d r i \<in> set logs"
    by auto
  moreover have "NewDevice ty m d r i \<notin> set logs"
    using logs(2) by (auto simp: filter_empty_conv)
  ultimately have "NewDevice ty m d r i \<in> set (startup e n a)" by blast
  from startup_NewDevice [OF this]
  obtain em em' found where f: "connect e a = (em, Inr r)"
    "chackDevicesList e a (contextKey r) = (em', Inr found)" "eligible found d" by blast
  then have "snapshot (launched e n a) = found" by (simp add: launched_def)
  with f show "\<exists>em em' found. connect e a = (em, Inr r) \<and>
         chackDevicesList e a (contextKey r) = (em', Inr found) \<and>
         snapshot (launched e n a) = found \<and> deviceExistInMelCloud found d"
    by (auto simp: eligible_def)
next
  show "snapshot (refresh_tick n (em, Inr devices) st) = devices" by (simp add: refresh_tick_def)
  show "snapshot (refresh_tick n (em, Inl err) st) = snapshot st" by (simp add: refresh_tick_def)
qed

text \<open>A device \<^verbatim>\<open>D4\<close> is configured but appears in the cloud only with the first
  refresh tick: the snapshot has it, and no controller is constructed for it.\<close>

theorem refresh_ticks_start_no_controller_witness:
  "snapshot (fold (refresh_tick ''Home'')
       [([Emit_debug ''list''], Inr (\<lparr>DeviceID = ''D4''\<rparr> # reported)), ([], Inl ''Error: offline'')]
       (launched cloud ''Home'' (home\<lparr>ervDevices := Some [boiler\<lparr>deviceId := ''D4''\<rparr>]\<rparr>))) =
     \<lparr>DeviceID = ''D4''\<rparr> # reported \<and>
   constructed (effects (fold (refresh_tick ''Home'')
       [([Emit_debug ''list''], Inr (\<lparr>DeviceID = ''D4''\<rparr> # reported)), ([], Inl ''Error: offline'')]
       (launched cloud ''Home'' (home\<lparr>ervDevices := Some [boiler\<lparr>deviceId := ''D4''\<rparr>]\<rparr>)))) =
     [(ATA, living_room), (ATA, bedroom), (ATW, boiler)] \<and>
   deviceExistInMelCloud reported living_room"
proof -
  let ?a = "home\<lparr>ervDevices := Some [boiler\<lparr>deviceId := ''D4''\<rparr>]\<rparr>"
  let ?ticks = "[([Emit_debug ''list''], Inr (\<lparr>DeviceID = ''D4''\<rparr> # reported)), ([], Inl ''Error: offline'')]"
  note th = refresh_ticks_start_no_controller [where n = "''Home''" and e = cloud and a = ?a
      and ticks = ?ticks]
  have s: "snapshot (fold (refresh_tick ''Home'') ?ticks (launched cloud ''Home'' ?a)) =
     \<lparr>DeviceID = ''D4''\<rparr> # reported" by code_simp
  have c: "constructed (effects (fold (refresh_tick ''Home'') ?ticks (launched cloud ''Home'' ?a))) =
     [(ATA, living_room), (ATA, bedroom), (ATW, boiler)]" by code_simp
  have "NewDevice ATA ''Home'' living_room session 5000
     \<in> set (effects (fold (refresh_tick ''Home'') ?ticks (launched cloud ''Home'' ?a)))" by code_simp
  with th have "\<exists>em em' found. connect cloud ?a = (em, Inr session) \<and>
         chackDevicesList cloud ?a (contextKey session) = (em', Inr found) \<and>
         snapshot (launched cloud ''Home'' ?a) = found \<and> deviceExistInMelCloud found living_room"
    by blast
  then have "deviceExistInMelCloud reported living_room" by (auto simp: cloud_def)
  with s c show ?thesis by simp
qed

end
